theory Spec2Isabelle
  imports Complex_Main "HOL-Library.Word"
begin

section \<open>JavaScript strings\<close>

text \<open>
  A JavaScript string is a sequence of UTF-16 code units; \<open>.length\<close>, \<open>charAt\<close> and a
  regular expression without the \<open>u\<close> flag all count code units. The ASCII literals of
  the program are written \<open>js ''...''\<close>.
\<close>

type_synonym code_unit = "16 word"
type_synonym jsstring = "code_unit list"

definition js :: "string \<Rightarrow> jsstring" where
  "js s = map of_char s"

definition SLASH :: code_unit where "SLASH = 0x2F"
definition BACKSLASH :: code_unit where "BACKSLASH = 0x5C"
definition DOT :: code_unit where "DOT = 0x2E"
definition DASH :: code_unit where "DASH = 0x2D"
definition UNDERSCORE :: code_unit where "UNDERSCORE = 0x5F"
definition NUL :: code_unit where "NUL = 0"

text \<open>\<open>s.charAt(i)\<close>: the one-unit string at index \<open>i\<close>, the empty string out of range.\<close>

definition charAt :: "jsstring \<Rightarrow> int \<Rightarrow> jsstring" where
  "charAt s i = (if 0 \<le> i \<and> i < int (length s) then [s ! nat i] else [])"

section \<open>Identifier generator: \<open>generateCustomID\<close>\<close>

text \<open>
  \<^verbatim>\<open>
  const generateCustomID = (length = 8) => {
    const chars =
      "ABCDEFGHIJKLMNOPQRSTUVWXYZabcdefghijklmnopqrstuvwxyz0123456789";
    let randomPart = "";
    for (let i = 0; i < length; i++) {
      randomPart += chars.charAt(Math.floor(Math.random() * chars.length));
    }
    return randomPart + Date.now().toString(36);
  };
  \<close>
  The two sources of the function are parameters of the model: \<open>random k\<close> is the value of
  the \<open>k\<close>-th call of \<open>Math.random()\<close> made by the function, and \<open>now\<close> is the value of
  \<open>Date.now()\<close>, the number of milliseconds elapsed since the epoch. The argument is
  \<open>None\<close> when the caller passes none, as both callers in the repository do.
\<close>

definition chars :: jsstring where
  "chars = js ''ABCDEFGHIJKLMNOPQRSTUVWXYZabcdefghijklmnopqrstuvwxyz0123456789''"

function random_loop :: "(nat \<Rightarrow> real) \<Rightarrow> int \<Rightarrow> nat \<Rightarrow> jsstring \<Rightarrow> jsstring" where
  "random_loop random len i randomPart =
     (if int i < len
      then random_loop random len (i + 1)
             (randomPart @ charAt chars \<lfloor>random i * real (length chars)\<rfloor>)
      else randomPart)"
  by pat_completeness auto
termination
  by (relation "measure (\<lambda>(random, len, i, randomPart). nat (len - int i))") auto

declare random_loop.simps [simp del]

text \<open>\<open>Number.prototype.toString(36)\<close> on a non-negative integer.\<close>

definition digits36 :: jsstring where
  "digits36 = js ''0123456789abcdefghijklmnopqrstuvwxyz''"

fun toString36 :: "nat \<Rightarrow> jsstring" where
  "toString36 n =
     (if n < 36 then [digits36 ! n]
      else toString36 (n div 36) @ [digits36 ! (n mod 36)])"

declare toString36.simps [simp del]

definition generateCustomID :: "(nat \<Rightarrow> real) \<Rightarrow> nat \<Rightarrow> int option \<Rightarrow> jsstring" where
  "generateCustomID random now length_arg =
     (let len = (case length_arg of None \<Rightarrow> 8 | Some l \<Rightarrow> l);
          randomPart = random_loop random len 0 []
      in randomPart @ toString36 now)"

section \<open>Stored names: \<open>storage.filename\<close>\<close>

text \<open>
  \<open>s.replace(re, replacement)\<close> for a global regular expression that matches single
  code units: the string is scanned from left to right, a matching unit is replaced and
  any other unit is copied.
\<close>

fun replace_units :: "(code_unit \<Rightarrow> bool) \<Rightarrow> jsstring \<Rightarrow> jsstring \<Rightarrow> jsstring" where
  "replace_units matches replacement [] = []"
| "replace_units matches replacement (c # cs) =
     (if matches c then replacement @ replace_units matches replacement cs
      else c # replace_units matches replacement cs)"

text \<open>The character class \<open>[a-zA-Z0-9.-]\<close>; the expression of the source negates it.\<close>

definition in_class :: "code_unit \<Rightarrow> bool" where
  "in_class c =
     ((0x61 \<le> c \<and> c \<le> 0x7A) \<or> (0x41 \<le> c \<and> c \<le> 0x5A) \<or> (0x30 \<le> c \<and> c \<le> 0x39)
      \<or> c = DOT \<or> c = DASH)"

text \<open>\<^verbatim>\<open>file.originalname.replace(/[^a-zA-Z0-9.-]/g, "_")\<close>\<close>

definition sanitizedFileName :: "jsstring \<Rightarrow> jsstring" where
  "sanitizedFileName originalname =
     replace_units (\<lambda>c. \<not> in_class c) (js ''_'') originalname"

text \<open>
  \<^verbatim>\<open>cb(null, `${generateCustomID()}-${sanitizedFileName}`)\<close> in \<open>server.js\<close> and in its
  near copy; the oldest variant of the server has
  \<^verbatim>\<open>`${generateCustomID()}-${file.originalname}`\<close>.
\<close>

definition filename :: "(nat \<Rightarrow> real) \<Rightarrow> nat \<Rightarrow> jsstring \<Rightarrow> jsstring" where
  "filename random now originalname =
     generateCustomID random now None @ js ''-'' @ sanitizedFileName originalname"

definition filename_unsanitized :: "(nat \<Rightarrow> real) \<Rightarrow> nat \<Rightarrow> jsstring \<Rightarrow> jsstring" where
  "filename_unsanitized random now originalname =
     generateCustomID random now None @ js ''-'' @ originalname"

section \<open>Paths: \<open>path.join\<close> of the Node.js runtime (POSIX)\<close>

text \<open>
  \<open>path.join\<close> joins its non-empty arguments with \<open>/\<close> and normalises the result:
  empty and \<open>.\<close> segments are dropped, a \<open>..\<close> segment removes the segment before it
  (on an absolute path a \<open>..\<close> at the root is dropped, on a relative path it is kept).
  The functions below follow \<open>normalizeString\<close>, \<open>normalize\<close> and \<open>join\<close> of the
  runtime's \<open>path.posix\<close>, segment by segment.
\<close>

fun split_on :: "code_unit \<Rightarrow> jsstring \<Rightarrow> jsstring \<Rightarrow> jsstring list" where
  "split_on sep cur [] = [cur]"
| "split_on sep cur (c # cs) =
     (if c = sep then cur # split_on sep [] cs else split_on sep (cur @ [c]) cs)"

fun join_with :: "jsstring \<Rightarrow> jsstring list \<Rightarrow> jsstring" where
  "join_with sep [] = []"
| "join_with sep [s] = s"
| "join_with sep (s # t # ss) = s @ sep @ join_with sep (t # ss)"

fun normalizeString :: "bool \<Rightarrow> jsstring list \<Rightarrow> jsstring list \<Rightarrow> jsstring list" where
  "normalizeString allowAboveRoot res [] = res"
| "normalizeString allowAboveRoot res (seg # segs) =
     (if seg = [] \<or> seg = js ''.'' then normalizeString allowAboveRoot res segs
      else if seg = js ''..'' then
        (if res \<noteq> [] \<and> last res \<noteq> js ''..''
         then normalizeString allowAboveRoot (butlast res) segs
         else if allowAboveRoot then normalizeString allowAboveRoot (res @ [seg]) segs
         else normalizeString allowAboveRoot res segs)
      else normalizeString allowAboveRoot (res @ [seg]) segs)"

definition normalize :: "jsstring \<Rightarrow> jsstring" where
  "normalize path =
     (if path = [] then js ''.''
      else
        let isAbsolute = (hd path = SLASH);
            trailingSeparator = (last path = SLASH);
            p = join_with (js ''/'') (normalizeString (\<not> isAbsolute) [] (split_on SLASH [] path))
        in if p = [] then (if isAbsolute then js ''/''
                           else if trailingSeparator then js ''./'' else js ''.'')
           else (if isAbsolute then js ''/'' else []) @ p
                @ (if trailingSeparator then js ''/'' else []))"

definition path_join :: "jsstring list \<Rightarrow> jsstring" where
  "path_join args =
     (let joined = join_with (js ''/'') (filter (\<lambda>arg. arg \<noteq> []) args)
      in if joined = [] then js ''.'' else normalize joined)"

text \<open>
  \<^verbatim>\<open>const UPLOADS_DIR = path.join(__dirname, "uploads");\<close>
  The directory of the module, \<open>__dirname\<close>, is a parameter.
\<close>

definition UPLOADS_DIR :: "jsstring \<Rightarrow> jsstring" where
  "UPLOADS_DIR dirname = path_join [dirname, js ''uploads'']"

section \<open>The file system\<close>

text \<open>
  The file system maps the path handed to a system call to what is found there.
  \<open>protected\<close> holds the paths at which the operating system refuses to create or to
  remove a file (permissions, a file locked by another process).
\<close>

datatype node = RegularFile "8 word list" | Directory

record filesystem =
  entries :: "jsstring \<rightharpoonup> node"
  protected :: "jsstring set"

datatype fs_error = ENOENT | EISDIR | EACCES

datatype fs_op = Access jsstring | Create jsstring | Write jsstring nat | Unlink jsstring

text \<open>\<open>fs.access(path, fs.constants.F_OK, cb)\<close>: the error handed to the callback.\<close>

definition fs_access :: "filesystem \<Rightarrow> jsstring \<Rightarrow> fs_error option" where
  "fs_access fs path = (case entries fs path of None \<Rightarrow> Some ENOENT | Some n \<Rightarrow> None)"

text \<open>\<open>fs.unlink(path, cb)\<close>: the error handed to the callback, or the new file system.\<close>

definition fs_unlink :: "filesystem \<Rightarrow> jsstring \<Rightarrow> fs_error + filesystem" where
  "fs_unlink fs path =
     (case entries fs path of
        None \<Rightarrow> Inl ENOENT
      | Some Directory \<Rightarrow> Inl EISDIR
      | Some (RegularFile content) \<Rightarrow>
          if path \<in> protected fs then Inl EACCES
          else Inr (fs\<lparr>entries := (entries fs)(path := None)\<rparr>))"

text \<open>
  \<open>fs.createWriteStream(path)\<close> opens the file for writing, creating it or emptying it;
  each chunk piped into the stream is appended.
\<close>

definition fs_create :: "filesystem \<Rightarrow> jsstring \<Rightarrow> fs_error + filesystem" where
  "fs_create fs path =
     (if path \<in> protected fs then Inl EACCES
      else case entries fs path of
        Some Directory \<Rightarrow> Inl EISDIR
      | _ \<Rightarrow> Inr (fs\<lparr>entries := (entries fs)(path \<mapsto> RegularFile [])\<rparr>))"

definition fs_append :: "filesystem \<Rightarrow> jsstring \<Rightarrow> 8 word list \<Rightarrow> filesystem" where
  "fs_append fs path data =
     (case entries fs path of
        Some (RegularFile content) \<Rightarrow>
          fs\<lparr>entries := (entries fs)(path \<mapsto> RegularFile (content @ data))\<rparr>
      | _ \<Rightarrow> fs)"

fun fs_write_all :: "filesystem \<Rightarrow> jsstring \<Rightarrow> 8 word list list \<Rightarrow> filesystem \<times> fs_op list" where
  "fs_write_all fs path [] = (fs, [])"
| "fs_write_all fs path (d # ds) =
     (case fs_write_all (fs_append fs path d) path ds of
        (fs', ops) \<Rightarrow> (fs', Write path (length d) # ops))"

definition error_code :: "fs_error \<Rightarrow> jsstring" where
  "error_code e = (case e of ENOENT \<Rightarrow> js ''ENOENT'' | EISDIR \<Rightarrow> js ''EISDIR''
                   | EACCES \<Rightarrow> js ''EACCES'')"

section \<open>Requests and responses\<close>

text \<open>
  \<open>express.json()\<close> leaves the parsed JSON object in \<open>req.body\<close>; the model keeps its
  properties as a map from property names to JSON values. A JSON number is truthy
  unless it is zero.
\<close>

datatype json =
    JNull
  | JBool bool
  | JNumber real
  | JString jsstring
  | JArray "json list"
  | JObject "(jsstring \<times> json) list"

type_synonym body = "jsstring \<rightharpoonup> json"

text \<open>The truth value of \<open>fileName\<close> in \<open>!fileName\<close>; \<open>None\<close> is \<open>undefined\<close>.\<close>

fun truthy :: "json option \<Rightarrow> bool" where
  "truthy None = False"
| "truthy (Some JNull) = False"
| "truthy (Some (JBool b)) = b"
| "truthy (Some (JNumber x)) = (x \<noteq> 0)"
| "truthy (Some (JString s)) = (s \<noteq> [])"
| "truthy (Some (JArray xs)) = True"
| "truthy (Some (JObject kvs)) = True"

text \<open>
  A response is a status with the JSON body \<open>{success, message}\<close> or
  \<open>{success, fileUrl}\<close>. An exception that leaves a handler, or an error that no error
  middleware of the route takes, ends in the default error handler of Express, which
  answers with status 500 and no JSON body.
\<close>

datatype response =
    Message nat bool jsstring
  | FileUrl nat bool jsstring
  | DefaultErrorHandler jsstring

fun status :: "response \<Rightarrow> nat" where
  "status (Message code success message) = code"
| "status (FileUrl code success fileUrl) = code"
| "status (DefaultErrorHandler message) = 500"

section \<open>Deletion: \<open>app.delete("/delete")\<close>\<close>

text \<open>
  \<^verbatim>\<open>
  app.delete("/delete", (req, res) => {
    const { fileName } = req.body;
    if (!fileName) {
      return res.status(400).json({ success: false, message: "File name is required" });
    }
    const filePath = path.join(UPLOADS_DIR, fileName);
    fs.access(filePath, fs.constants.F_OK, (err) => {
      if (err) {
        return res.status(404).json({ success: false, message: "File not found" });
      }
      fs.unlink(filePath, (err) => {
        if (err) {
          return res.status(500).json({ success: false, message: "Error deleting file" });
        }
        res.status(200).json({ success: true, message: "File deleted successfully" });
      });
    });
  });
  \<close>
  The handler returns the response, the file system it leaves and the file-system
  operations it made, in order. \<open>path.join\<close> throws a \<open>TypeError\<close> on an argument that
  is not a string, and \<open>fs.access\<close> throws on a path with a NUL unit, before any system
  call. The three variants of the server have this handler; the oldest one writes the
  path as \<open>path.join(__dirname, "uploads", fileName)\<close>.
\<close>

definition delete_path ::
  "jsstring \<Rightarrow> jsstring \<Rightarrow> filesystem \<Rightarrow> response \<times> filesystem \<times> fs_op list" where
  "delete_path filePath fileName fs =
     (if NUL \<in> set filePath then (DefaultErrorHandler (js ''TypeError''), fs, [])
      else case fs_access fs filePath of
        Some err \<Rightarrow> (Message 404 False (js ''File not found''), fs, [Access filePath])
      | None \<Rightarrow>
          (case fs_unlink fs filePath of
             Inl err \<Rightarrow> (Message 500 False (js ''Error deleting file''), fs,
                         [Access filePath, Unlink filePath])
           | Inr fs' \<Rightarrow> (Message 200 True (js ''File deleted successfully''), fs',
                         [Access filePath, Unlink filePath])))"

definition delete_handler ::
  "jsstring \<Rightarrow> body \<Rightarrow> filesystem \<Rightarrow> response \<times> filesystem \<times> fs_op list" where
  "delete_handler dirname req_body fs =
     (let fileName = req_body (js ''fileName'') in
      if \<not> truthy fileName then (Message 400 False (js ''File name is required''), fs, [])
      else case fileName of
        Some (JString name) \<Rightarrow> delete_path (path_join [UPLOADS_DIR dirname, name]) name fs
      | _ \<Rightarrow> (DefaultErrorHandler (js ''TypeError''), fs, []))"

definition delete_handler_oldest ::
  "jsstring \<Rightarrow> body \<Rightarrow> filesystem \<Rightarrow> response \<times> filesystem \<times> fs_op list" where
  "delete_handler_oldest dirname req_body fs =
     (let fileName = req_body (js ''fileName'') in
      if \<not> truthy fileName then (Message 400 False (js ''File name is required''), fs, [])
      else case fileName of
        Some (JString name) \<Rightarrow> delete_path (path_join [dirname, js ''uploads'', name]) name fs
      | _ \<Rightarrow> (DefaultErrorHandler (js ''TypeError''), fs, []))"

section \<open>Uploads: the \<open>multer\<close> middleware as the server configures it\<close>

text \<open>
  The file part of a multipart request, as the middleware hands it to the callbacks of
  the server: the name of the form field, the file name and the content type the client
  declared, and the body as the chunks in which it arrives.
\<close>

record file_part =
  fieldname :: jsstring
  originalname :: jsstring
  mimetype :: jsstring
  chunks :: "8 word list list"

datatype upload_error = MulterError jsstring | Error jsstring

fun error_message :: "upload_error \<Rightarrow> jsstring" where
  "error_message (MulterError message) = message"
| "error_message (Error message) = message"

text \<open>
  The options the server passes to \<open>multer(...)\<close>: \<open>limits.fileSize\<close> and \<open>fileFilter\<close>
  are \<open>None\<close> where the server passes none; \<open>storage\<close> is a disk storage with the two
  callbacks \<open>destination\<close> and \<open>filename\<close>. A \<open>fileFilter\<close> answers through its callback
  with an error or with the flag that accepts the file.
\<close>

record multer_options =
  fileSize :: "nat option"
  fileFilter :: "(file_part \<Rightarrow> upload_error + bool) option"
  destination :: jsstring
  storage_filename :: "file_part \<Rightarrow> jsstring"

text \<open>
  \<^verbatim>\<open>
  fileFilter: (req, file, cb) => {
    const allowedTypes = [ "image/png", "image/jpeg", "image/jpg", "application/pdf",
      "application/vnd.openxmlformats-officedocument.wordprocessingml.document", // .docx
      "application/msword", // .doc
      "application/vnd.openxmlformats-officedocument.spreadsheetml.sheet", // .xlsx
      "application/vnd.ms-excel", // .xls
    ];
    if (!allowedTypes.includes(file.mimetype)) {
      return cb(new Error("Unsupported file type"), false);
    }
    cb(null, true);
  },
  \<close>
  The near copy of \<open>server.js\<close> has the first four types only and its own message.
\<close>

definition allowedTypes :: "jsstring list" where
  "allowedTypes =
     [js ''image/png'', js ''image/jpeg'', js ''image/jpg'', js ''application/pdf'',
      js ''application/vnd.openxmlformats-officedocument.wordprocessingml.document'',
      js ''application/msword'',
      js ''application/vnd.openxmlformats-officedocument.spreadsheetml.sheet'',
      js ''application/vnd.ms-excel'']"

definition fileFilter_server :: "file_part \<Rightarrow> upload_error + bool" where
  "fileFilter_server file =
     (if mimetype file \<notin> set allowedTypes
      then Inl (Error (js ''Unsupported file type''))
      else Inr True)"

definition allowedTypes_copy :: "jsstring list" where
  "allowedTypes_copy =
     [js ''image/png'', js ''image/jpeg'', js ''image/jpg'', js ''application/pdf'']"

definition fileFilter_copy :: "file_part \<Rightarrow> upload_error + bool" where
  "fileFilter_copy file =
     (if mimetype file \<notin> set allowedTypes_copy
      then Inl (Error (js ''Invalid file type. Only PNG, JPEG, JPG, and PDF allowed.''))
      else Inr True)"

text \<open>
  \<^verbatim>\<open>const upload = multer({ storage, limits: { fileSize: 40 * 1024 * 1024 }, fileFilter })\<close>
  in \<open>server.js\<close> and in its near copy; \<^verbatim>\<open>const upload = multer({ storage: storage })\<close>
  in the oldest variant.
\<close>

definition upload_server :: "jsstring \<Rightarrow> (nat \<Rightarrow> real) \<Rightarrow> nat \<Rightarrow> multer_options" where
  "upload_server dirname random now =
     \<lparr>fileSize = Some (40 * 1024 * 1024),
      fileFilter = Some fileFilter_server,
      destination = UPLOADS_DIR dirname,
      storage_filename = (\<lambda>file. filename random now (originalname file))\<rparr>"

definition upload_copy :: "jsstring \<Rightarrow> (nat \<Rightarrow> real) \<Rightarrow> nat \<Rightarrow> multer_options" where
  "upload_copy dirname random now =
     \<lparr>fileSize = Some (40 * 1024 * 1024),
      fileFilter = Some fileFilter_copy,
      destination = UPLOADS_DIR dirname,
      storage_filename = (\<lambda>file. filename random now (originalname file))\<rparr>"

definition upload_oldest :: "jsstring \<Rightarrow> (nat \<Rightarrow> real) \<Rightarrow> nat \<Rightarrow> multer_options" where
  "upload_oldest dirname random now =
     \<lparr>fileSize = None,
      fileFilter = None,
      destination = path_join [dirname, js ''uploads''],
      storage_filename = (\<lambda>file. filename_unsanitized random now (originalname file))\<rparr>"

text \<open>
  The library's side of an upload, as its documentation and its disk storage describe
  it. The multipart parser hands the body on chunk by chunk and counts the bytes; the
  chunk that takes the count over \<open>limits.fileSize\<close> is cut at the limit, the stream
  ends there and the upload is marked as over the limit. \<open>limit_stream\<close> returns the
  chunks that reach the storage and that mark.
\<close>

fun limit_stream :: "nat option \<Rightarrow> nat \<Rightarrow> 8 word list list \<Rightarrow> 8 word list list \<times> bool" where
  "limit_stream limit nsize [] = ([], False)"
| "limit_stream limit nsize (d # ds) =
     (case limit of
        None \<Rightarrow> (case limit_stream limit (nsize + length d) ds of
                   (out, truncated) \<Rightarrow> (d # out, truncated))
      | Some fileSizeLimit \<Rightarrow>
          if nsize + length d > fileSizeLimit
          then (if fileSizeLimit > nsize then [take (fileSizeLimit - nsize) d] else [], True)
          else (case limit_stream limit (nsize + length d) ds of
                  (out, truncated) \<Rightarrow> (d # out, truncated)))"

text \<open>
  \<open>upload.single(field)\<close> on a request with at most one file part. A part without a
  file name is skipped. A part in another field is refused. Then \<open>fileFilter\<close> decides,
  before the storage is touched. An accepted file is piped into
  \<open>path.join(destination, filename)\<close>; when the stream was cut at the limit the
  middleware removes the file it has written and fails with \<open>File too large\<close>.
  The result is the error or the stored \<open>req.file.filename\<close> (\<open>None\<close> when \<open>req.file\<close>
  is not set), the file system and the operations made on it.
\<close>

definition multer_single ::
  "multer_options \<Rightarrow> jsstring \<Rightarrow> file_part option \<Rightarrow> filesystem
     \<Rightarrow> (upload_error + jsstring option) \<times> filesystem \<times> fs_op list" where
  "multer_single opts field part fs =
     (case part of
        None \<Rightarrow> (Inr None, fs, [])
      | Some file \<Rightarrow>
          if originalname file = [] then (Inr None, fs, [])
          else if fieldname file \<noteq> field then (Inl (MulterError (js ''Unexpected field'')), fs, [])
          else
            (case (case fileFilter opts of None \<Rightarrow> Inr True | Some f \<Rightarrow> f file) of
               Inl err \<Rightarrow> (Inl err, fs, [])
             | Inr False \<Rightarrow> (Inr None, fs, [])
             | Inr True \<Rightarrow>
                 let name = storage_filename opts file;
                     finalPath = path_join [destination opts, name]
                 in (case fs_create fs finalPath of
                       Inl e \<Rightarrow> (Inl (Error (error_code e)), fs, [Create finalPath])
                     | Inr fs1 \<Rightarrow>
                         (case limit_stream (fileSize opts) 0 (chunks file) of
                            (out, truncated) \<Rightarrow>
                              (case fs_write_all fs1 finalPath out of
                                 (fs2, ops) \<Rightarrow>
                                   if truncated then
                                     (case fs_unlink fs2 finalPath of
                                        Inl e \<Rightarrow>
                                          (Inl (MulterError (js ''File too large'')), fs2,
                                           Create finalPath # ops @ [Unlink finalPath])
                                      | Inr fs3 \<Rightarrow>
                                          (Inl (MulterError (js ''File too large'')), fs3,
                                           Create finalPath # ops @ [Unlink finalPath]))
                                   else (Inr (Some name), fs2, Create finalPath # ops))))))"

text \<open>
  \<^verbatim>\<open>
  app.post("/upload", upload.single("file"),
    (req, res) => {
      if (!req.file) {
        return res.status(400)
          .json({ success: false, message: "No file found in the request body" });
      }
      res.status(200).json({ success: true, fileUrl: `/uploads/${req.file.filename}` });
    },
    (error, req, res, next) => {
      if (error instanceof multer.MulterError) {
        return res.status(400).json({ success: false, message: error.message });
      } else if (error) {
        return res.status(400).json({ success: false, message: error.message });
      }
      next();
    });
  \<close>
  Only \<open>server.js\<close> has the error middleware; in the two other variants an error of the
  upload reaches the default error handler.
\<close>

definition upload_route ::
  "bool \<Rightarrow> multer_options \<Rightarrow> file_part option \<Rightarrow> filesystem
     \<Rightarrow> response \<times> filesystem \<times> fs_op list" where
  "upload_route has_error_middleware opts part fs =
     (case multer_single opts (js ''file'') part fs of
        (Inl error, fs', ops) \<Rightarrow>
          (if has_error_middleware then Message 400 False (error_message error)
           else DefaultErrorHandler (error_message error), fs', ops)
      | (Inr None, fs', ops) \<Rightarrow>
          (Message 400 False (js ''No file found in the request body''), fs', ops)
      | (Inr (Some stored), fs', ops) \<Rightarrow>
          (FileUrl 200 True (js ''/uploads/'' @ stored), fs', ops))"

definition upload_handler_server ::
  "jsstring \<Rightarrow> (nat \<Rightarrow> real) \<Rightarrow> nat \<Rightarrow> file_part option \<Rightarrow> filesystem
     \<Rightarrow> response \<times> filesystem \<times> fs_op list" where
  "upload_handler_server dirname random now =
     upload_route True (upload_server dirname random now)"

definition upload_handler_copy ::
  "jsstring \<Rightarrow> (nat \<Rightarrow> real) \<Rightarrow> nat \<Rightarrow> file_part option \<Rightarrow> filesystem
     \<Rightarrow> response \<times> filesystem \<times> fs_op list" where
  "upload_handler_copy dirname random now =
     upload_route False (upload_copy dirname random now)"

definition upload_handler_oldest ::
  "jsstring \<Rightarrow> (nat \<Rightarrow> real) \<Rightarrow> nat \<Rightarrow> file_part option \<Rightarrow> filesystem
     \<Rightarrow> response \<times> filesystem \<times> fs_op list" where
  "upload_handler_oldest dirname random now =
     upload_route False (upload_oldest dirname random now)"

section \<open>Notions used by the properties\<close>

text \<open>The alphanumeric units \<open>[a-zA-Z0-9]\<close>.\<close>

definition is_alnum :: "code_unit \<Rightarrow> bool" where
  "is_alnum c =
     ((0x61 \<le> c \<and> c \<le> 0x7A) \<or> (0x41 \<le> c \<and> c \<le> 0x5A) \<or> (0x30 \<le> c \<and> c \<le> 0x39))"

text \<open>
  Base-36 numerals. \<open>digit36 k\<close> is the digit of value \<open>k\<close> (\<open>0\<close> to \<open>9\<close>, then \<open>a\<close> to
  \<open>z\<close>), \<open>digit_value\<close> reads a digit back, and \<open>value36\<close> is the number a string of
  digits denotes, as \<open>parseInt(s, 36)\<close> reads it.
\<close>

definition digit36 :: "nat \<Rightarrow> code_unit" where
  "digit36 k = (if k < 10 then of_nat (48 + k) else of_nat (87 + k))"

definition digit_value :: "code_unit \<Rightarrow> nat" where
  "digit_value c = (if c \<le> 0x39 then unat c - 48 else unat c - 87)"

definition value36 :: "jsstring \<Rightarrow> nat" where
  "value36 s = foldl (\<lambda>acc c. acc * 36 + digit_value c) 0 s"

text \<open>
  \<open>string_le a b\<close> is JavaScript's \<open>a <= b\<close> on strings, which compares code unit by
  code unit. \<open>numeral_le\<close> is the order of numerals without leading zeros: the shorter
  numeral is the smaller one, and numerals of one length compare as strings.
\<close>

fun string_le :: "jsstring \<Rightarrow> jsstring \<Rightarrow> bool" where
  "string_le [] b = True"
| "string_le (x # xs) [] = False"
| "string_le (x # xs) (y # ys) = (x < y \<or> (x = y \<and> string_le xs ys))"

definition numeral_le :: "jsstring \<Rightarrow> jsstring \<Rightarrow> bool" where
  "numeral_le a b = (length a < length b \<or> (length a = length b \<and> string_le a b))"

text \<open>
  A plain segment is a path segment that \<open>normalizeString\<close> keeps as it is: not empty,
  not \<open>.\<close>, not \<open>..\<close>, and without \<open>/\<close>.
\<close>

definition plain_segment :: "jsstring \<Rightarrow> bool" where
  "plain_segment s = (s \<noteq> [] \<and> s \<noteq> js ''.'' \<and> s \<noteq> js ''..'' \<and> SLASH \<notin> set s)"

section \<open>Properties of the identifier generator and of stored names\<close>

subsection \<open>Alphabets\<close>

lemma length_chars: "length chars = 62"
  by (simp add: chars_def js_def)

lemma chars_alnum: "c \<in> set chars \<Longrightarrow> is_alnum c"
  by (auto simp: chars_def js_def is_alnum_def)

lemma digits36_alnum: "c \<in> set digits36 \<Longrightarrow> is_alnum c"
  by (auto simp: digits36_def js_def is_alnum_def)

lemma length_digits36: "length digits36 = 36"
  by (simp add: digits36_def js_def)

lemma charAt_subset: "set (charAt s i) \<subseteq> set s"
  by (auto simp: charAt_def)

lemma random_loop_subset:
  "set (random_loop random len i acc) \<subseteq> set acc \<union> set chars"
proof (induction random len i acc rule: random_loop.induct)
  case (1 random len i randomPart)
  show ?case
  proof (cases "int i < len")
    case True
    have "set (random_loop random len (i + 1)
             (randomPart @ charAt chars \<lfloor>random i * real (length chars)\<rfloor>)) \<subseteq> set randomPart \<union> set chars"
      using 1[OF True] charAt_subset[of chars] by auto
    then show ?thesis using True by (subst random_loop.simps) simp
  next
    case False
    then show ?thesis by (subst random_loop.simps) simp
  qed
qed

lemma toString36_digits: "set (toString36 n) \<subseteq> set digits36"
proof (induction n rule: toString36.induct)
  case (1 n)
  show ?case
  proof (cases "n < 36")
    case True
    then show ?thesis by (subst toString36.simps) (simp add: length_digits36)
  next
    case False
    have "n mod 36 < length digits36" by (simp add: length_digits36)
    then have "digits36 ! (n mod 36) \<in> set digits36" by (rule nth_mem)
    then show ?thesis using 1[OF False] False by (subst toString36.simps) simp
  qed
qed

lemma generateCustomID_alnum: "c \<in> set (generateCustomID random now l) \<Longrightarrow> is_alnum c"
  using random_loop_subset[of random _ 0 "[]"] toString36_digits[of now] chars_alnum digits36_alnum
  by (auto simp: generateCustomID_def Let_def split: option.splits)

lemma is_alnum_not_special:
  "is_alnum c \<Longrightarrow> c \<noteq> DASH \<and> c \<noteq> SLASH \<and> c \<noteq> BACKSLASH \<and> c \<noteq> NUL \<and> c \<noteq> DOT"
  by (auto simp: is_alnum_def DASH_def SLASH_def BACKSLASH_def NUL_def DOT_def)

lemma in_class_not_separator:
  "in_class c \<Longrightarrow> c \<noteq> SLASH \<and> c \<noteq> BACKSLASH \<and> c \<noteq> NUL"
  by (auto simp: in_class_def DASH_def SLASH_def BACKSLASH_def NUL_def DOT_def)

lemma sanitized_units:
  "c \<in> set (sanitizedFileName s) \<Longrightarrow> in_class c \<or> c = UNDERSCORE"
  unfolding sanitizedFileName_def
  by (induction s) (auto simp: js_def UNDERSCORE_def split: if_splits)

lemma sanitized_no_separator:
  "c \<in> set (sanitizedFileName s) \<Longrightarrow> c \<noteq> SLASH \<and> c \<noteq> BACKSLASH \<and> c \<noteq> NUL"
  using sanitized_units[of c s] in_class_not_separator[of c]
  by (auto simp: UNDERSCORE_def SLASH_def BACKSLASH_def NUL_def)

lemma js_dash: "js ''-'' = [DASH]"
  by (simp add: js_def DASH_def)

lemma split_on_no_sep:
  "sep \<notin> set s \<Longrightarrow> split_on sep cur s = [cur @ s]"
  by (induction s arbitrary: cur) auto

lemma filename_units:
  "c \<in> set (filename random now name) \<Longrightarrow> c \<noteq> SLASH \<and> c \<noteq> BACKSLASH \<and> c \<noteq> NUL"
  using generateCustomID_alnum[of c random now None] is_alnum_not_special[of c]
    sanitized_no_separator[of c name]
  by (auto simp: filename_def js_dash DASH_def SLASH_def BACKSLASH_def NUL_def)

lemma dash_in_filename: "DASH \<in> set (filename random now name)"
  by (simp add: filename_def js_dash)

subsection \<open>Sanitisation\<close>

lemma replace_units_length:
  "length replacement = 1 \<Longrightarrow> length (replace_units m replacement s) = length s"
  by (induction s) auto

lemma replace_units_nth:
  "i < length s \<Longrightarrow> replace_units m [r] s ! i = (if m (s ! i) then r else s ! i)"
proof (induction s arbitrary: i)
  case Nil then show ?case by simp
next
  case (Cons c cs)
  then show ?case by (cases i) auto
qed

text \<open>
  C2: for every original name, the sanitised name has the same length, and at every
  position it has the unit of the original name when that unit is in the class
  \<open>[A-Za-z0-9.-]\<close> and an underscore otherwise.
\<close>

theorem sanitize_ok:
  "length (sanitizedFileName original) = length original \<and>
   (\<forall>i < length original.
      sanitizedFileName original ! i =
        (if in_class (original ! i) then original ! i else UNDERSCORE))"
  by (simp add: sanitizedFileName_def js_def replace_units_length replace_units_nth UNDERSCORE_def)


theorem sanitize_ok_witness:
  "sanitizedFileName (js ''a b/..'') = js ''a_b_..''"
proof -
  have "length (js ''a b/..'') = 6" by (simp add: js_def)
  moreover have "\<forall>i<6. i \<in> {0, 1, 2, 3, 4, 5::nat}" by auto
  ultimately show ?thesis
    using sanitize_ok[of "js ''a b/..''"]
    by (simp add: sanitizedFileName_def js_def in_class_def DOT_def DASH_def)
qed

subsection \<open>Stored names\<close>

text \<open>
  C3: whatever the original name, the stored name \<open>identifier-sanitisedName\<close> is one
  path segment: it has no \<open>/\<close>, no \<open>\\<close> and no NUL unit, splitting it at \<open>/\<close> gives the
  name itself, and it is neither empty nor one of the segments \<open>.\<close> and \<open>..\<close>.
\<close>

theorem stored_name_safe:
  "SLASH \<notin> set (filename random now original) \<and>
   BACKSLASH \<notin> set (filename random now original) \<and>
   NUL \<notin> set (filename random now original) \<and>
   split_on SLASH [] (filename random now original) = [filename random now original] \<and>
   filename random now original \<noteq> [] \<and>
   filename random now original \<noteq> js ''.'' \<and>
   filename random now original \<noteq> js ''..''"
proof -
  let ?n = "filename random now original"
  have units: "SLASH \<notin> set ?n" "BACKSLASH \<notin> set ?n" "NUL \<notin> set ?n"
    using filename_units[of _ random now original] by blast+
  have dash: "DASH \<in> set ?n" by (rule dash_in_filename)
  have "DASH \<notin> set (js ''.'')" "DASH \<notin> set (js ''..'')"
    by (simp_all add: js_def DASH_def)
  with dash have "?n \<noteq> js ''.''" "?n \<noteq> js ''..''" "?n \<noteq> []" by auto
  moreover have "split_on SLASH [] ?n = [?n]"
    using split_on_no_sep[OF units(1), of "[]"] by simp
  ultimately show ?thesis using units by blast
qed

text \<open>
  The oldest variant of the server does not sanitise: what its stored names contain is
  what the middleware leaves in \<open>file.originalname\<close>.
\<close>

lemma oldest_name_keeps_separators:
  "SLASH \<in> set (filename_unsanitized random now (js ''../x''))"
  by (simp add: filename_unsanitized_def js_def SLASH_def)

text \<open>
  C10: the part of a stored name before its first \<open>-\<close> is the generated identifier,
  which has no \<open>-\<close>, and what follows that \<open>-\<close> is the sanitised original name.
\<close>

theorem identifier_recoverable:
  "takeWhile (\<lambda>c. c \<noteq> DASH) (filename random now original) = generateCustomID random now None \<and>
   tl (dropWhile (\<lambda>c. c \<noteq> DASH) (filename random now original)) = sanitizedFileName original \<and>
   DASH \<notin> set (generateCustomID random now None)"
proof -
  let ?id = "generateCustomID random now None"
  have nodash: "\<forall>c \<in> set ?id. c \<noteq> DASH"
    using generateCustomID_alnum[of _ random now None] is_alnum_not_special by blast
  have "takeWhile (\<lambda>c. c \<noteq> DASH) (?id @ DASH # sanitizedFileName original) = ?id"
    using nodash by (simp add: takeWhile_tail)
  moreover have "dropWhile (\<lambda>c. c \<noteq> DASH) (?id @ DASH # sanitizedFileName original)
      = DASH # sanitizedFileName original"
    using nodash by (simp add: dropWhile_append)
  ultimately show ?thesis using nodash by (auto simp add: filename_def js_dash)
qed

subsection \<open>Shape of an identifier\<close>

lemma floor_index:
  fixes r :: real
  assumes "0 \<le> r" "r < 1"
  shows "0 \<le> \<lfloor>r * 62\<rfloor> \<and> \<lfloor>r * 62\<rfloor> < 62"
proof -
  have "0 \<le> r * 62" using assms by simp
  moreover have "r * 62 < 62" using assms by simp
  ultimately show ?thesis by (simp add: floor_less_iff)
qed

lemma length_chars_real: "real (length chars) = 62"
  by (simp add: length_chars)

lemma random_loop_map:
  "(\<forall>k. 0 \<le> random k \<and> random k < 1) \<Longrightarrow>
   random_loop random len i acc =
     acc @ map (\<lambda>k. chars ! nat \<lfloor>random k * 62\<rfloor>) [i..<nat len]"
proof (induction random len i acc rule: random_loop.induct)
  case (1 random len i randomPart)
  show ?case
  proof (cases "int i < len")
    case True
    have idx: "0 \<le> \<lfloor>random i * 62\<rfloor> \<and> \<lfloor>random i * 62\<rfloor> < 62"
      using floor_index[of "random i"] "1.prems" by simp
    then have pick: "charAt chars \<lfloor>random i * real (length chars)\<rfloor>
        = [chars ! nat \<lfloor>random i * 62\<rfloor>]"
      by (simp add: charAt_def length_chars)
    have upt: "[i..<nat len] = i # [i + 1..<nat len]"
      using True by (simp add: upt_conv_Cons)
    have "random_loop random len i randomPart
        = random_loop random len (i + 1) (randomPart @ [chars ! nat \<lfloor>random i * 62\<rfloor>])"
      using True pick by (subst random_loop.simps) simp
    also have "\<dots> = (randomPart @ [chars ! nat \<lfloor>random i * 62\<rfloor>])
          @ map (\<lambda>k. chars ! nat \<lfloor>random k * 62\<rfloor>) [i + 1..<nat len]"
      using "1.IH"[OF True "1.prems"] pick by simp
    finally show ?thesis using upt by simp
  next
    case False
    then have "[i..<nat len] = []" by simp
    then show ?thesis using False by (subst random_loop.simps) simp
  qed
qed




section \<open>Properties of deletion\<close>

subsection \<open>The outcomes of the handler\<close>

lemma delete_path_file:
  assumes "NUL \<notin> set p" "entries fs p = Some (RegularFile content)" "p \<notin> protected fs"
  shows "delete_path p name fs =
           (Message 200 True (js ''File deleted successfully''),
            fs\<lparr>entries := (entries fs)(p := None)\<rparr>, [Access p, Unlink p])"
  using assms by (simp add: delete_path_def fs_access_def fs_unlink_def)

lemma delete_path_absent:
  assumes "NUL \<notin> set p" "entries fs p = None"
  shows "delete_path p name fs = (Message 404 False (js ''File not found''), fs, [Access p])"
  using assms by (simp add: delete_path_def fs_access_def)

lemma delete_path_refused:
  assumes "NUL \<notin> set p"
    and "entries fs p = Some Directory \<or> (entries fs p \<noteq> None \<and> p \<in> protected fs)"
  shows "delete_path p name fs =
           (Message 500 False (js ''Error deleting file''), fs, [Access p, Unlink p])"
  using assms
  by (auto simp: delete_path_def fs_access_def fs_unlink_def split: option.splits node.splits)

lemma delete_path_nul:
  assumes "NUL \<in> set p"
  shows "delete_path p name fs = (DefaultErrorHandler (js ''TypeError''), fs, [])"
  using assms by (simp add: delete_path_def)

lemma delete_handler_string:
  assumes "req_body (js ''fileName'') = Some (JString name)" "name \<noteq> []"
  shows "delete_handler dirname req_body fs =
           delete_path (path_join [UPLOADS_DIR dirname, name]) name fs"
  using assms by (simp add: delete_handler_def)

lemma delete_handler_oldest_string:
  assumes "req_body (js ''fileName'') = Some (JString name)" "name \<noteq> []"
  shows "delete_handler_oldest dirname req_body fs =
           delete_path (path_join [dirname, js ''uploads'', name]) name fs"
  using assms by (simp add: delete_handler_oldest_def)

subsection \<open>Paths of a server installed in \<open>/srv/app\<close>\<close>

lemma uploads_dir_example: "UPLOADS_DIR (js ''/srv/app'') = js ''/srv/app/uploads''"
  by (simp add: UPLOADS_DIR_def path_join_def normalize_def js_def SLASH_def Let_def)

lemma traversal_example:
  "path_join [js ''/srv/app/uploads'', js ''../../../etc/passwd''] = js ''/etc/passwd''"
  by (simp add: path_join_def normalize_def js_def SLASH_def Let_def)

lemma traversal_example_oldest:
  "path_join [js ''/srv/app'', js ''uploads'', js ''../../../etc/passwd''] = js ''/etc/passwd''"
  by (simp add: path_join_def normalize_def js_def SLASH_def Let_def)

lemma stored_example:
  "path_join [js ''/srv/app/uploads'', js ''abc-a.png''] = js ''/srv/app/uploads/abc-a.png''"
  by (simp add: path_join_def normalize_def js_def SLASH_def Let_def)


subsection \<open>Missing name\<close>

text \<open>
  C7: a delete request whose \<open>fileName\<close> is absent or the empty string is answered with
  status 400 and the message \<open>File name is required\<close>; the handler makes no file-system
  operation and leaves the file system as it was. All variants of the handler agree.
\<close>

theorem delete_missing_name:
  assumes "req_body (js ''fileName'') = None \<or> req_body (js ''fileName'') = Some (JString [])"
  shows "delete_handler dirname req_body fs =
           (Message 400 False (js ''File name is required''), fs, []) \<and>
         delete_handler_oldest dirname req_body fs =
           (Message 400 False (js ''File name is required''), fs, [])"
  using assms by (auto simp: delete_handler_def delete_handler_oldest_def)

theorem delete_missing_name_witness:
  "delete_handler (js ''/srv/app'') Map.empty \<lparr>entries = Map.empty, protected = {}\<rparr> =
     (Message 400 False (js ''File name is required''), \<lparr>entries = Map.empty, protected = {}\<rparr>, [])"
  using delete_missing_name[of Map.empty "js ''/srv/app''" "\<lparr>entries = Map.empty, protected = {}\<rparr>"]
  by simp

subsection \<open>Deleting twice\<close>

text \<open>
  C8: when the name resolves to a regular file whose removal the operating system
  allows, the first delete answers 200 \<open>File deleted successfully\<close> and removes the
  file, and a second delete of the same name answers 404 \<open>File not found\<close>, not 500,
  and leaves the file system as the first one left it.
\<close>

theorem delete_twice:
  assumes "req_body (js ''fileName'') = Some (JString name)" and "name \<noteq> []"
    and "p = path_join [UPLOADS_DIR dirname, name]"
    and "NUL \<notin> set p"
    and "entries fs p = Some (RegularFile content)"
    and "p \<notin> protected fs"
    and "fs' = fs\<lparr>entries := (entries fs)(p := None)\<rparr>"
  shows "delete_handler dirname req_body fs =
           (Message 200 True (js ''File deleted successfully''), fs', [Access p, Unlink p]) \<and>
         delete_handler dirname req_body fs' =
           (Message 404 False (js ''File not found''), fs', [Access p])"
proof -
  have first: "delete_handler dirname req_body fs =
      (Message 200 True (js ''File deleted successfully''), fs', [Access p, Unlink p])"
    using delete_handler_string[of req_body name dirname fs] assms(1,2)
      delete_path_file[OF assms(4,5,6)] assms(3,7)
    by simp
  have "entries fs' p = None" using assms(7) by simp
  then have second: "delete_handler dirname req_body fs' =
      (Message 404 False (js ''File not found''), fs', [Access p])"
    using delete_handler_string[of req_body name dirname fs'] assms(1,2)
      delete_path_absent[OF assms(4)] assms(3)
    by simp
  show ?thesis using first second by simp
qed

theorem delete_twice_witness:
  "delete_handler (js ''/srv/app'') [js ''fileName'' \<mapsto> JString (js ''abc-a.png'')]
      \<lparr>entries = [js ''/srv/app/uploads/abc-a.png'' \<mapsto> RegularFile [1, 2, 3]], protected = {}\<rparr>
     = (Message 200 True (js ''File deleted successfully''),
        \<lparr>entries = Map.empty, protected = {}\<rparr>,
        [Access (js ''/srv/app/uploads/abc-a.png''), Unlink (js ''/srv/app/uploads/abc-a.png'')]) \<and>
   delete_handler (js ''/srv/app'') [js ''fileName'' \<mapsto> JString (js ''abc-a.png'')]
      \<lparr>entries = Map.empty, protected = {}\<rparr>
     = (Message 404 False (js ''File not found''), \<lparr>entries = Map.empty, protected = {}\<rparr>,
        [Access (js ''/srv/app/uploads/abc-a.png'')])"
proof -
  let ?p = "js ''/srv/app/uploads/abc-a.png''"
  let ?fs = "\<lparr>entries = [?p \<mapsto> RegularFile [1, 2, 3]], protected = {}\<rparr>"
  let ?body = "[js ''fileName'' \<mapsto> JString (js ''abc-a.png'')]"
  have h1: "?body (js ''fileName'') = Some (JString (js ''abc-a.png''))" by simp
  have h2: "js ''abc-a.png'' \<noteq> []" by (simp add: js_def)
  have h3: "?p = path_join [UPLOADS_DIR (js ''/srv/app''), js ''abc-a.png'']"
    by (simp only: uploads_dir_example stored_example)
  have h4: "NUL \<notin> set ?p" by (simp add: js_def NUL_def)
  have h5: "entries ?fs ?p = Some (RegularFile [1, 2, 3])" by simp
  have h6: "?p \<notin> protected ?fs" by simp
  have h7: "\<lparr>entries = Map.empty, protected = {}\<rparr> = ?fs\<lparr>entries := (entries ?fs)(?p := None)\<rparr>"
    by simp
  show ?thesis
    using delete_twice[where req_body = ?body and name = "js ''abc-a.png''" and p = ?p
        and dirname = "js ''/srv/app''" and fs = ?fs and content = "[1, 2, 3]"
        and fs' = "\<lparr>entries = Map.empty, protected = {}\<rparr>", OF h1 h2 h3 h4 h5 h6 h7]
    by simp
qed

subsection \<open>Names with parent-directory segments\<close>

text \<open>
  C1, as stated, fails: the handler has no containment check. With the server in
  \<open>/srv/app\<close>, the name \<open>../../../etc/passwd\<close> is not rejected: the handler checks
  \<open>/etc/passwd\<close> for existence, unlinks it and answers 200. The oldest variant of the
  handler does the same.
\<close>

theorem traversal_deletes_outside_root:
  "delete_handler (js ''/srv/app'') [js ''fileName'' \<mapsto> JString (js ''../../../etc/passwd'')]
      \<lparr>entries = [js ''/etc/passwd'' \<mapsto> RegularFile []], protected = {}\<rparr>
     = (Message 200 True (js ''File deleted successfully''),
        \<lparr>entries = Map.empty, protected = {}\<rparr>,
        [Access (js ''/etc/passwd''), Unlink (js ''/etc/passwd'')]) \<and>
   delete_handler_oldest (js ''/srv/app'')
      [js ''fileName'' \<mapsto> JString (js ''../../../etc/passwd'')]
      \<lparr>entries = [js ''/etc/passwd'' \<mapsto> RegularFile []], protected = {}\<rparr>
     = (Message 200 True (js ''File deleted successfully''),
        \<lparr>entries = Map.empty, protected = {}\<rparr>,
        [Access (js ''/etc/passwd''), Unlink (js ''/etc/passwd'')])"
proof -
  let ?p = "js ''/etc/passwd''"
  let ?name = "js ''../../../etc/passwd''"
  let ?fs = "\<lparr>entries = [?p \<mapsto> RegularFile []], protected = {}\<rparr>"
  let ?body = "[js ''fileName'' \<mapsto> JString ?name]"
  have h1: "?body (js ''fileName'') = Some (JString ?name)" by simp
  have h2: "?name \<noteq> []" by (simp add: js_def)
  have h3: "path_join [UPLOADS_DIR (js ''/srv/app''), ?name] = ?p"
    by (simp only: uploads_dir_example traversal_example)
  have h4: "NUL \<notin> set ?p" by (simp add: js_def NUL_def)
  have h5: "entries ?fs ?p = Some (RegularFile [])" by simp
  have h6: "?p \<notin> protected ?fs" by simp
  have "delete_handler (js ''/srv/app'') ?body ?fs = delete_path ?p ?name ?fs"
    using delete_handler_string[of ?body ?name "js ''/srv/app''" ?fs] h1 h2 h3 by simp
  moreover have "delete_handler_oldest (js ''/srv/app'') ?body ?fs = delete_path ?p ?name ?fs"
    using delete_handler_oldest_string[of ?body ?name "js ''/srv/app''" ?fs] h1 h2
      traversal_example_oldest by simp
  ultimately show ?thesis
    using delete_path_file[OF h4 h5 h6, of ?name] by simp
qed

text \<open>
  C1, amended: for every non-empty string \<open>fileName\<close>, with or without parent-directory
  segments, the handler never answers 400. It normalises \<open>UPLOADS_DIR/fileName\<close> with
  \<open>path.join\<close> and makes its existence check and its unlink on that path and on no
  other, wherever the path lies: 404 when nothing is there, 200 after removing a regular
  file, 500 when the unlink fails; a path with a NUL unit is refused before any
  file-system operation.
\<close>

theorem delete_resolves_joined_path:
  assumes "req_body (js ''fileName'') = Some (JString name)" and "name \<noteq> []"
    and "p = path_join [UPLOADS_DIR dirname, name]"
  shows "status (fst (delete_handler dirname req_body fs)) \<noteq> 400 \<and>
         set (snd (snd (delete_handler dirname req_body fs))) \<subseteq> {Access p, Unlink p} \<and>
         (NUL \<in> set p \<longrightarrow>
            delete_handler dirname req_body fs = (DefaultErrorHandler (js ''TypeError''), fs, [])) \<and>
         (NUL \<notin> set p \<and> entries fs p = None \<longrightarrow>
            delete_handler dirname req_body fs =
              (Message 404 False (js ''File not found''), fs, [Access p])) \<and>
         (\<forall>content. NUL \<notin> set p \<and> entries fs p = Some (RegularFile content) \<and> p \<notin> protected fs \<longrightarrow>
            delete_handler dirname req_body fs =
              (Message 200 True (js ''File deleted successfully''),
               fs\<lparr>entries := (entries fs)(p := None)\<rparr>, [Access p, Unlink p])) \<and>
         (NUL \<notin> set p \<and> (entries fs p = Some Directory \<or> (entries fs p \<noteq> None \<and> p \<in> protected fs)) \<longrightarrow>
            delete_handler dirname req_body fs =
              (Message 500 False (js ''Error deleting file''), fs, [Access p, Unlink p]))"
proof -
  have eq: "delete_handler dirname req_body fs = delete_path p name fs"
    using delete_handler_string[of req_body name dirname fs] assms by simp
  have a: "status (fst (delete_path p name fs)) \<noteq> 400"
    by (auto simp: delete_path_def split: option.splits sum.splits)
  have b: "set (snd (snd (delete_path p name fs))) \<subseteq> {Access p, Unlink p}"
    by (auto simp: delete_path_def split: option.splits sum.splits)
  show ?thesis
    unfolding eq
    using a b delete_path_nul[of p name fs] delete_path_absent[of p fs name]
      delete_path_file[of p fs _ name] delete_path_refused[of p fs name]
    by blast
qed

theorem delete_resolves_joined_path_witness:
  "[js ''fileName'' \<mapsto> JString (js ''../../../etc/passwd'')] (js ''fileName'')
      = Some (JString (js ''../../../etc/passwd'')) \<and>
   js ''../../../etc/passwd'' \<noteq> [] \<and>
   js ''/etc/passwd'' = path_join [UPLOADS_DIR (js ''/srv/app''), js ''../../../etc/passwd''] \<and>
   NUL \<notin> set (js ''/etc/passwd'') \<and>
   status (fst (delete_handler (js ''/srv/app'')
      [js ''fileName'' \<mapsto> JString (js ''../../../etc/passwd'')]
      \<lparr>entries = [js ''/etc/passwd'' \<mapsto> Directory], protected = {}\<rparr>)) = 500"
proof -
  let ?p = "js ''/etc/passwd''"
  let ?name = "js ''../../../etc/passwd''"
  let ?fs = "\<lparr>entries = [?p \<mapsto> Directory], protected = {}\<rparr>"
  let ?body = "[js ''fileName'' \<mapsto> JString ?name]"
  have h1: "?body (js ''fileName'') = Some (JString ?name)" by simp
  have h2: "?name \<noteq> []" by (simp add: js_def)
  have h3: "?p = path_join [UPLOADS_DIR (js ''/srv/app''), ?name]"
    by (simp only: uploads_dir_example traversal_example)
  have h4: "NUL \<notin> set ?p" by (simp add: js_def NUL_def)
  have h5: "entries ?fs ?p = Some Directory" by simp
  have "delete_handler (js ''/srv/app'') ?body ?fs =
          (Message 500 False (js ''Error deleting file''), ?fs, [Access ?p, Unlink ?p])"
    using delete_resolves_joined_path[where req_body = ?body and name = ?name and p = ?p
        and dirname = "js ''/srv/app''" and fs = ?fs, OF h1 h2 h3] h4 h5
    by blast
  then show ?thesis using h1 h2 h3 h4 by simp
qed


section \<open>Properties of uploads\<close>

subsection \<open>The stream under a size limit, and the file it writes\<close>

lemma limit_stream_truncated:
  "nsize \<le> l \<Longrightarrow> nsize + sum_list (map length ds) > l \<Longrightarrow>
   snd (limit_stream (Some l) nsize ds) = True"
proof (induction ds arbitrary: nsize)
  case Nil
  then show ?case by simp
next
  case (Cons d ds)
  show ?case
  proof (cases "nsize + length d > l")
    case True
    then show ?thesis by simp
  next
    case False
    then have "nsize + length d \<le> l" by simp
    moreover have "nsize + length d + sum_list (map length ds) > l"
      using Cons.prems(2) by simp
    ultimately have "snd (limit_stream (Some l) (nsize + length d) ds) = True"
      by (rule Cons.IH)
    then show ?thesis using False
      by (cases "limit_stream (Some l) (nsize + length d) ds") simp
  qed
qed

lemma limit_stream_within:
  "nsize + sum_list (map length ds) \<le> l \<Longrightarrow> limit_stream (Some l) nsize ds = (ds, False)"
  by (induction ds arbitrary: nsize) (auto simp: add.assoc)

lemma limit_stream_bound:
  "nsize \<le> l \<Longrightarrow> nsize + sum_list (map length (fst (limit_stream (Some l) nsize ds))) \<le> l"
proof (induction ds arbitrary: nsize)
  case Nil
  then show ?case by simp
next
  case (Cons d ds)
  show ?case
  proof (cases "nsize + length d > l")
    case True
    then show ?thesis using Cons.prems by simp
  next
    case False
    then have le: "nsize + length d \<le> l" by simp
    show ?thesis using Cons.IH[OF le] False
      by (cases "limit_stream (Some l) (nsize + length d) ds") (simp add: add.assoc)
  qed
qed

lemma fs_write_all_result:
  "entries fs p = Some (RegularFile content) \<Longrightarrow>
   \<exists>content'. fst (fs_write_all fs p out) = fs\<lparr>entries := (entries fs)(p \<mapsto> RegularFile content')\<rparr>"
proof (induction out arbitrary: fs content)
  case Nil
  have "fs = fs\<lparr>entries := (entries fs)(p \<mapsto> RegularFile content)\<rparr>"
    using Nil by (simp add: fun_upd_idem)
  then have "fst (fs_write_all fs p []) = fs\<lparr>entries := (entries fs)(p \<mapsto> RegularFile content)\<rparr>"
    by simp
  then show ?case by (rule exI)
next
  case (Cons d ds)
  let ?fs1 = "fs_append fs p d"
  have fs1: "?fs1 = fs\<lparr>entries := (entries fs)(p \<mapsto> RegularFile (content @ d))\<rparr>"
    using Cons.prems by (simp add: fs_append_def)
  then have "entries ?fs1 p = Some (RegularFile (content @ d))" by simp
  from Cons.IH[OF this] obtain c' where
    "fst (fs_write_all ?fs1 p ds) = ?fs1\<lparr>entries := (entries ?fs1)(p \<mapsto> RegularFile c')\<rparr>"
    by blast
  then have "fst (fs_write_all fs p (d # ds)) = fs\<lparr>entries := (entries fs)(p \<mapsto> RegularFile c')\<rparr>"
    using fs1 by (cases "fs_write_all ?fs1 p ds") simp
  then show ?case by (rule exI)
qed

lemma fs_create_ok:
  "p \<notin> protected fs \<Longrightarrow> entries fs p \<noteq> Some Directory \<Longrightarrow>
   fs_create fs p = Inr (fs\<lparr>entries := (entries fs)(p \<mapsto> RegularFile [])\<rparr>)"
  by (auto simp: fs_create_def split: option.splits node.splits)

lemma multer_too_large:
  assumes "originalname file \<noteq> []" and "fieldname file = field"
    and "(case fileFilter opts of None \<Rightarrow> Inr True | Some f \<Rightarrow> f file) = Inr True"
    and "fileSize opts = Some l" and "sum_list (map length (chunks file)) > l"
    and "p = path_join [destination opts, storage_filename opts file]"
    and "p \<notin> protected fs" and "entries fs p \<noteq> Some Directory"
  shows "\<exists>ops. multer_single opts field (Some file) fs =
           (Inl (MulterError (js ''File too large'')),
            fs\<lparr>entries := (entries fs)(p := None)\<rparr>, ops @ [Unlink p])"
proof -
  let ?fs1 = "fs\<lparr>entries := (entries fs)(p \<mapsto> RegularFile [])\<rparr>"
  obtain out truncated where ls: "limit_stream (Some l) 0 (chunks file) = (out, truncated)"
    by (cases "limit_stream (Some l) 0 (chunks file)")
  have tr: "truncated"
    using limit_stream_truncated[of 0 l "chunks file"] assms(5) ls by simp
  obtain fs2 ops where w: "fs_write_all ?fs1 p out = (fs2, ops)"
    by (cases "fs_write_all ?fs1 p out")
  have "entries ?fs1 p = Some (RegularFile [])" by simp
  from fs_write_all_result[OF this, of out] w obtain c' where
    fs2: "fs2 = fs\<lparr>entries := (entries fs)(p \<mapsto> RegularFile c')\<rparr>"
    by auto
  have un: "fs_unlink fs2 p = Inr (fs\<lparr>entries := (entries fs)(p := None)\<rparr>)"
    using fs2 assms(7) by (simp add: fs_unlink_def)
  have "multer_single opts field (Some file) fs =
           (Inl (MulterError (js ''File too large'')),
            fs\<lparr>entries := (entries fs)(p := None)\<rparr>, (Create p # ops) @ [Unlink p])"
    using assms(1,2,3,4) assms(6)[symmetric] fs_create_ok[OF assms(7,8)] ls tr w un
    by (simp add: multer_single_def Let_def)
  then show ?thesis by blast
qed

lemma multer_filter_rejects:
  assumes "originalname file \<noteq> []" and "fieldname file = field"
    and "fileFilter opts = Some f" and "f file = Inl err"
  shows "multer_single opts field (Some file) fs = (Inl err, fs, [])"
  using assms by (simp add: multer_single_def)


lemma multer_no_write_when_rejected:
  assumes "fileFilter opts = Some f" and "f file = Inl err"
  shows "snd (multer_single opts field (Some file) fs) = (fs, [])"
  using assms by (simp add: multer_single_def)

lemma upload_route_snd:
  "snd (upload_route m opts part fs) = snd (multer_single opts (js ''file'') part fs)"
  by (auto simp: upload_route_def split: prod.splits sum.splits option.splits)

subsection \<open>Content types\<close>

lemma exe_not_allowed:
  "js ''application/x-msdownload'' \<notin> set allowedTypes"
  "js ''application/x-msdownload'' \<notin> set allowedTypes_copy"
  by (simp_all add: allowedTypes_def allowedTypes_copy_def js_def)

lemma png_allowed:
  "js ''image/png'' \<in> set allowedTypes" "js ''image/png'' \<in> set allowedTypes_copy"
  by (simp_all add: allowedTypes_def allowedTypes_copy_def)

text \<open>
  In \<open>server.js\<close> and in its near copy, a file whose declared content type is not in
  the allow-list of the variant is rejected by \<open>fileFilter\<close> with the variant's error;
  the upload then makes no file-system operation and leaves the file system as it was,
  and the response carries the error and no file URL. A declared type in the allow-list
  is accepted by \<open>fileFilter\<close>.
\<close>

theorem unsupported_type_rejected:
  "(mimetype file \<notin> set allowedTypes \<longrightarrow>
      fileFilter_server file = Inl (Error (js ''Unsupported file type'')) \<and>
      snd (upload_handler_server dirname random now (Some file) fs) = (fs, []) \<and>
      (originalname file \<noteq> [] \<and> fieldname file = js ''file'' \<longrightarrow>
         fst (upload_handler_server dirname random now (Some file) fs) =
           Message 400 False (js ''Unsupported file type''))) \<and>
   (mimetype file \<in> set allowedTypes \<longrightarrow> fileFilter_server file = Inr True) \<and>
   (mimetype file \<notin> set allowedTypes_copy \<longrightarrow>
      fileFilter_copy file =
        Inl (Error (js ''Invalid file type. Only PNG, JPEG, JPG, and PDF allowed.'')) \<and>
      snd (upload_handler_copy dirname random now (Some file) fs) = (fs, []) \<and>
      (originalname file \<noteq> [] \<and> fieldname file = js ''file'' \<longrightarrow>
         fst (upload_handler_copy dirname random now (Some file) fs) =
           DefaultErrorHandler (js ''Invalid file type. Only PNG, JPEG, JPG, and PDF allowed.''))) \<and>
   (mimetype file \<in> set allowedTypes_copy \<longrightarrow> fileFilter_copy file = Inr True)"
proof -
  have ff: "fileFilter (upload_server dirname random now) = Some fileFilter_server"
    "fileFilter (upload_copy dirname random now) = Some fileFilter_copy"
    by (simp_all add: upload_server_def upload_copy_def)
  have server: "fileFilter_server file = Inl (Error (js ''Unsupported file type'')) \<and>
      snd (upload_handler_server dirname random now (Some file) fs) = (fs, []) \<and>
      (originalname file \<noteq> [] \<and> fieldname file = js ''file'' \<longrightarrow>
         fst (upload_handler_server dirname random now (Some file) fs) =
           Message 400 False (js ''Unsupported file type''))"
    if out: "mimetype file \<notin> set allowedTypes"
  proof -
    have rej: "fileFilter_server file = Inl (Error (js ''Unsupported file type''))"
      using out by (simp add: fileFilter_server_def)
    have "snd (upload_handler_server dirname random now (Some file) fs) = (fs, [])"
      using multer_no_write_when_rejected[OF ff(1) rej]
      by (simp only: upload_handler_server_def upload_route_snd)
    moreover have "fst (upload_handler_server dirname random now (Some file) fs) =
           Message 400 False (js ''Unsupported file type'')"
      if "originalname file \<noteq> []" "fieldname file = js ''file''"
      using multer_filter_rejects[OF that ff(1) rej, of fs]
      by (simp add: upload_handler_server_def upload_route_def)
    ultimately show ?thesis using rej by blast
  qed
  have copy: "fileFilter_copy file =
        Inl (Error (js ''Invalid file type. Only PNG, JPEG, JPG, and PDF allowed.'')) \<and>
      snd (upload_handler_copy dirname random now (Some file) fs) = (fs, []) \<and>
      (originalname file \<noteq> [] \<and> fieldname file = js ''file'' \<longrightarrow>
         fst (upload_handler_copy dirname random now (Some file) fs) =
           DefaultErrorHandler (js ''Invalid file type. Only PNG, JPEG, JPG, and PDF allowed.''))"
    if out: "mimetype file \<notin> set allowedTypes_copy"
  proof -
    have rej: "fileFilter_copy file =
        Inl (Error (js ''Invalid file type. Only PNG, JPEG, JPG, and PDF allowed.''))"
      using out by (simp add: fileFilter_copy_def)
    have "snd (upload_handler_copy dirname random now (Some file) fs) = (fs, [])"
      using multer_no_write_when_rejected[OF ff(2) rej]
      by (simp only: upload_handler_copy_def upload_route_snd)
    moreover have "fst (upload_handler_copy dirname random now (Some file) fs) =
           DefaultErrorHandler (js ''Invalid file type. Only PNG, JPEG, JPG, and PDF allowed.'')"
      if "originalname file \<noteq> []" "fieldname file = js ''file''"
      using multer_filter_rejects[OF that ff(2) rej, of fs]
      by (simp add: upload_handler_copy_def upload_route_def)
    ultimately show ?thesis using rej by blast
  qed
  have acc: "mimetype file \<in> set allowedTypes \<longrightarrow> fileFilter_server file = Inr True"
    "mimetype file \<in> set allowedTypes_copy \<longrightarrow> fileFilter_copy file = Inr True"
    by (simp_all add: fileFilter_server_def fileFilter_copy_def)
  show ?thesis using server copy acc by blast
qed

theorem unsupported_type_rejected_witness:
  "upload_handler_server (js ''/srv/app'') (\<lambda>k. 1 / 2) 71
     (Some \<lparr>fieldname = js ''file'', originalname = js ''a.exe'',
            mimetype = js ''application/x-msdownload'', chunks = [[1, 2, 3]]\<rparr>)
     \<lparr>entries = Map.empty, protected = {}\<rparr>
    = (Message 400 False (js ''Unsupported file type''),
       \<lparr>entries = Map.empty, protected = {}\<rparr>, []) \<and>
   fileFilter_server \<lparr>fieldname = js ''file'', originalname = js ''a.png'',
            mimetype = js ''image/png'', chunks = [[1, 2, 3]]\<rparr> = Inr True \<and>
   fileFilter_copy \<lparr>fieldname = js ''file'', originalname = js ''a.png'',
            mimetype = js ''image/png'', chunks = [[1, 2, 3]]\<rparr> = Inr True"
proof -
  let ?exe = "\<lparr>fieldname = js ''file'', originalname = js ''a.exe'',
            mimetype = js ''application/x-msdownload'', chunks = [[1, 2, 3 :: 8 word]]\<rparr>"
  let ?png = "\<lparr>fieldname = js ''file'', originalname = js ''a.png'',
            mimetype = js ''image/png'', chunks = [[1, 2, 3 :: 8 word]]\<rparr>"
  let ?fs = "\<lparr>entries = Map.empty, protected = {}\<rparr>"
  have h1: "mimetype ?exe \<notin> set allowedTypes" using exe_not_allowed(1) by simp
  have h2: "originalname ?exe \<noteq> [] \<and> fieldname ?exe = js ''file''" by (simp add: js_def)
  have h3: "mimetype ?png \<in> set allowedTypes" "mimetype ?png \<in> set allowedTypes_copy"
    using png_allowed by simp_all
  have a: "fst (upload_handler_server (js ''/srv/app'') (\<lambda>k. 1 / 2) 71 (Some ?exe) ?fs)
             = Message 400 False (js ''Unsupported file type'')"
    and b: "snd (upload_handler_server (js ''/srv/app'') (\<lambda>k. 1 / 2) 71 (Some ?exe) ?fs)
             = (?fs, [])"
    using unsupported_type_rejected[of ?exe "js ''/srv/app''" "\<lambda>k. 1 / 2" 71 ?fs] h1 h2
    by blast+
  have c: "fileFilter_server ?png = Inr True" "fileFilter_copy ?png = Inr True"
    using unsupported_type_rejected[of ?png "js ''/srv/app''" "\<lambda>k. 1 / 2" 71 ?fs] h3
    by blast+
  show ?thesis using a b c by (simp add: prod_eq_iff)
qed

subsection \<open>The size limit\<close>

text \<open>
  In \<open>server.js\<close> and in its near copy, an accepted upload whose body has more than
  \<open>40 * 1024 * 1024\<close> bytes fails with \<open>File too large\<close>; the response carries no file
  URL, the last file-system operation is the unlink of the file that was being written,
  and afterwards nothing exists at its path, the rest of the file system being as
  before. The storage is taken to accept the write: the path is not one where the
  operating system refuses and not a directory.
\<close>

theorem too_large_removed:
  assumes "originalname file \<noteq> []" and "fieldname file = js ''file''"
    and "sum_list (map length (chunks file)) > 40 * 1024 * 1024"
    and "p = path_join [UPLOADS_DIR dirname, filename random now (originalname file)]"
    and "p \<notin> protected fs" and "entries fs p \<noteq> Some Directory"
  shows
    "(mimetype file \<in> set allowedTypes \<longrightarrow>
        (\<exists>ops. upload_handler_server dirname random now (Some file) fs =
           (Message 400 False (js ''File too large''),
            fs\<lparr>entries := (entries fs)(p := None)\<rparr>, ops @ [Unlink p]))) \<and>
     (mimetype file \<in> set allowedTypes_copy \<longrightarrow>
        (\<exists>ops. upload_handler_copy dirname random now (Some file) fs =
           (DefaultErrorHandler (js ''File too large''),
            fs\<lparr>entries := (entries fs)(p := None)\<rparr>, ops @ [Unlink p])))"
proof -
  let ?s = "upload_server dirname random now"
  let ?c = "upload_copy dirname random now"
  have lim: "fileSize ?s = Some (40 * 1024 * 1024)" "fileSize ?c = Some (40 * 1024 * 1024)"
    by (simp_all add: upload_server_def upload_copy_def)
  have ps: "p = path_join [destination ?s, storage_filename ?s file]"
    "p = path_join [destination ?c, storage_filename ?c file]"
    using assms(4) by (simp_all add: upload_server_def upload_copy_def)
  have server: "\<exists>ops. upload_handler_server dirname random now (Some file) fs =
           (Message 400 False (js ''File too large''),
            fs\<lparr>entries := (entries fs)(p := None)\<rparr>, ops @ [Unlink p])"
    if "mimetype file \<in> set allowedTypes"
  proof -
    have "(case fileFilter ?s of None \<Rightarrow> Inr True | Some f \<Rightarrow> f file) = Inr True"
      using that by (simp add: upload_server_def fileFilter_server_def)
    from multer_too_large[OF assms(1,2) this lim(1) assms(3) ps(1) assms(5,6)]
    obtain ops where "multer_single ?s (js ''file'') (Some file) fs =
           (Inl (MulterError (js ''File too large'')),
            fs\<lparr>entries := (entries fs)(p := None)\<rparr>, ops @ [Unlink p])" by blast
    then have "upload_handler_server dirname random now (Some file) fs =
           (Message 400 False (js ''File too large''),
            fs\<lparr>entries := (entries fs)(p := None)\<rparr>, ops @ [Unlink p])"
      by (simp add: upload_handler_server_def upload_route_def)
    then show ?thesis by blast
  qed
  have copy: "\<exists>ops. upload_handler_copy dirname random now (Some file) fs =
           (DefaultErrorHandler (js ''File too large''),
            fs\<lparr>entries := (entries fs)(p := None)\<rparr>, ops @ [Unlink p])"
    if "mimetype file \<in> set allowedTypes_copy"
  proof -
    have "(case fileFilter ?c of None \<Rightarrow> Inr True | Some f \<Rightarrow> f file) = Inr True"
      using that by (simp add: upload_copy_def fileFilter_copy_def)
    from multer_too_large[OF assms(1,2) this lim(2) assms(3) ps(2) assms(5,6)]
    obtain ops where "multer_single ?c (js ''file'') (Some file) fs =
           (Inl (MulterError (js ''File too large'')),
            fs\<lparr>entries := (entries fs)(p := None)\<rparr>, ops @ [Unlink p])" by blast
    then have "upload_handler_copy dirname random now (Some file) fs =
           (DefaultErrorHandler (js ''File too large''),
            fs\<lparr>entries := (entries fs)(p := None)\<rparr>, ops @ [Unlink p])"
      by (simp add: upload_handler_copy_def upload_route_def)
    then show ?thesis by blast
  qed
  show ?thesis using server copy by blast
qed

theorem too_large_removed_witness:
  "\<exists>ops. upload_handler_server (js ''/srv/app'') (\<lambda>k. 1 / 2) 71
     (Some \<lparr>fieldname = js ''file'', originalname = js ''a.png'',
            mimetype = js ''image/png'', chunks = [replicate 41943041 0]\<rparr>)
     \<lparr>entries = Map.empty, protected = {}\<rparr>
    = (Message 400 False (js ''File too large''),
       \<lparr>entries = Map.empty, protected = {}\<rparr>, ops)"
proof -
  let ?big = "\<lparr>fieldname = js ''file'', originalname = js ''a.png'',
            mimetype = js ''image/png'', chunks = [replicate 41943041 (0 :: 8 word)]\<rparr>"
  let ?fs = "\<lparr>entries = Map.empty, protected = {}\<rparr>"
  let ?p = "path_join [UPLOADS_DIR (js ''/srv/app''),
              filename (\<lambda>k. 1 / 2) 71 (originalname ?big)]"
  have h1: "originalname ?big \<noteq> []" by (simp add: js_def)
  have h2: "fieldname ?big = js ''file''" by simp
  have h3: "sum_list (map length (chunks ?big)) > 40 * 1024 * 1024" by simp
  have h4: "?p = path_join [UPLOADS_DIR (js ''/srv/app''),
              filename (\<lambda>k. 1 / 2) 71 (originalname ?big)]" by (rule refl)
  have h5: "?p \<notin> protected ?fs" by simp
  have h6: "entries ?fs ?p \<noteq> Some Directory" by simp
  have h7: "mimetype ?big \<in> set allowedTypes" using png_allowed(1) by simp
  have "?fs\<lparr>entries := (entries ?fs)(?p := None)\<rparr> = ?fs" by simp
  then show ?thesis
    using too_large_removed[OF h1 h2 h3 h4 h5 h6] h7 by auto
qed


subsection \<open>The oldest variant\<close>

text \<open>
  The oldest variant of the server passes neither \<open>fileFilter\<close> nor \<open>limits\<close>, which
  its two siblings pass: it stores a file of any declared type and of any size.
\<close>

lemma oldest_has_no_validation:
  "fileFilter (upload_oldest dirname random now) = None \<and>
   fileSize (upload_oldest dirname random now) = None"
  by (simp add: upload_oldest_def)

lemma limit_stream_unlimited: "limit_stream None nsize ds = (ds, False)"
  by (induction ds arbitrary: nsize) auto

lemma fs_write_all_exact:
  "entries fs p = Some (RegularFile content) \<Longrightarrow>
   fs_write_all fs p out =
     (fs\<lparr>entries := (entries fs)(p \<mapsto> RegularFile (content @ concat out))\<rparr>,
      map (\<lambda>d. Write p (length d)) out)"
proof (induction out arbitrary: fs content)
  case Nil
  then show ?case by (simp add: fun_upd_idem)
next
  case (Cons d ds)
  let ?fs1 = "fs_append fs p d"
  have fs1: "?fs1 = fs\<lparr>entries := (entries fs)(p \<mapsto> RegularFile (content @ d))\<rparr>"
    using Cons.prems by (simp add: fs_append_def)
  then have "entries ?fs1 p = Some (RegularFile (content @ d))" by simp
  from Cons.IH[OF this]
  have "fs_write_all ?fs1 p ds =
      (?fs1\<lparr>entries := (entries ?fs1)(p \<mapsto> RegularFile ((content @ d) @ concat ds))\<rparr>,
       map (\<lambda>d. Write p (length d)) ds)" .
  moreover have "?fs1\<lparr>entries := (entries ?fs1)(p \<mapsto> RegularFile ((content @ d) @ concat ds))\<rparr>
      = fs\<lparr>entries := (entries fs)(p \<mapsto> RegularFile (content @ concat (d # ds)))\<rparr>"
    by (simp add: fs1)
  ultimately show ?case by (simp add: fun_upd_def)
qed

lemma oldest_stores:
  assumes "originalname file \<noteq> []" and "fieldname file = js ''file''"
    and "p = path_join [path_join [dirname, js ''uploads''],
                        filename_unsanitized random now (originalname file)]"
    and "p \<notin> protected fs" and "entries fs p \<noteq> Some Directory"
  shows "upload_handler_oldest dirname random now (Some file) fs =
           (FileUrl 200 True (js ''/uploads/'' @ filename_unsanitized random now (originalname file)),
            fs\<lparr>entries := (entries fs)(p \<mapsto> RegularFile (concat (chunks file)))\<rparr>,
            Create p # map (\<lambda>d. Write p (length d)) (chunks file))"
proof -
  let ?fs1 = "fs\<lparr>entries := (entries fs)(p \<mapsto> RegularFile [])\<rparr>"
  have "entries ?fs1 p = Some (RegularFile [])" by simp
  from fs_write_all_exact[OF this, of "chunks file"]
  have w: "fs_write_all ?fs1 p (chunks file) =
     (fs\<lparr>entries := (entries fs)(p \<mapsto> RegularFile (concat (chunks file)))\<rparr>,
      map (\<lambda>d. Write p (length d)) (chunks file))" by simp
  show ?thesis
    using assms(1,2) assms(3)[symmetric] fs_create_ok[OF assms(4,5)] w
    by (simp add: upload_handler_oldest_def upload_route_def multer_single_def upload_oldest_def
        limit_stream_unlimited Let_def)
qed

text \<open>The oldest variant installed in \<open>/srv/app\<close>, every draw being \<open>1/2\<close> and the clock 71.\<close>

lemma identifier_example: "generateCustomID (\<lambda>k. 1 / 2) 71 None = js ''ffffffff1z''"
proof -
  have h: "\<forall>k::nat. (0::real) \<le> (\<lambda>k. 1 / 2) k \<and> (\<lambda>k. 1 / 2 :: real) k < 1" by simp
  have t: "toString36 71 = js ''1z''"
    by (simp add: toString36.simps digits36_def js_def)
  have "[0..<nat 8] = [0, 1, 2, 3, 4, 5, 6, 7]" by (simp add: upt_rec)
  then show ?thesis
    using random_loop_map[OF h, of 8 0 "[]"] t
    by (simp add: generateCustomID_def chars_def js_def)
qed

lemma oldest_path_example:
  "path_join [path_join [js ''/srv/app'', js ''uploads''], js ''ffffffff1z-a.exe'']
     = js ''/srv/app/uploads/ffffffff1z-a.exe''"
  by (simp add: path_join_def normalize_def js_def SLASH_def Let_def)

lemma oldest_name_example:
  "filename_unsanitized (\<lambda>k. 1 / 2) 71 (js ''a.exe'') = js ''ffffffff1z-a.exe''"
  by (simp add: filename_unsanitized_def identifier_example) (simp add: js_def)

text \<open>
  C5 asks that an upload whose declared content type is outside the allow-list be
  rejected and that no file be created. The oldest variant does not do so: a file
  \<open>a.exe\<close> declared as \<open>application/x-msdownload\<close>, a type outside the allow-list, is
  written under the storage root and answered with status 200 and its file URL.
\<close>

theorem oldest_stores_unsupported_type:
  "js ''application/x-msdownload'' \<notin> set allowedTypes \<and>
   upload_handler_oldest (js ''/srv/app'') (\<lambda>k. 1 / 2) 71
     (Some \<lparr>fieldname = js ''file'', originalname = js ''a.exe'',
            mimetype = js ''application/x-msdownload'', chunks = [[1, 2, 3]]\<rparr>)
     \<lparr>entries = Map.empty, protected = {}\<rparr>
    = (FileUrl 200 True (js ''/uploads/ffffffff1z-a.exe''),
       \<lparr>entries = [js ''/srv/app/uploads/ffffffff1z-a.exe'' \<mapsto> RegularFile [1, 2, 3]],
         protected = {}\<rparr>,
       [Create (js ''/srv/app/uploads/ffffffff1z-a.exe''),
        Write (js ''/srv/app/uploads/ffffffff1z-a.exe'') 3])"
proof -
  let ?file = "\<lparr>fieldname = js ''file'', originalname = js ''a.exe'',
            mimetype = js ''application/x-msdownload'', chunks = [[1, 2, 3 :: 8 word]]\<rparr>"
  let ?fs = "\<lparr>entries = Map.empty, protected = {}\<rparr>"
  let ?p = "js ''/srv/app/uploads/ffffffff1z-a.exe''"
  have h1: "originalname ?file \<noteq> []" by (simp add: js_def)
  have h2: "fieldname ?file = js ''file''" by simp
  have h3: "?p = path_join [path_join [js ''/srv/app'', js ''uploads''],
                        filename_unsanitized (\<lambda>k. 1 / 2) 71 (originalname ?file)]"
    by (simp add: oldest_name_example oldest_path_example)
  have h4: "?p \<notin> protected ?fs" by simp
  have h5: "entries ?fs ?p \<noteq> Some Directory" by simp
  have url: "js ''/uploads/'' @ js ''ffffffff1z-a.exe'' = js ''/uploads/ffffffff1z-a.exe''"
    by (simp add: js_def)
  show ?thesis
    using oldest_stores[OF h1 h2 h3 h4 h5] exe_not_allowed(1) url
    by (simp add: oldest_name_example)
qed

text \<open>
  C6 asks that an upload whose body exceeds \<open>40 * 1024 * 1024\<close> bytes be aborted, that
  no stored name be returned and that no file remain. The oldest variant does not do
  so: a body of \<open>40 * 1024 * 1024 + 1\<close> bytes is written whole under the storage root and
  answered with status 200 and its file URL.
\<close>

theorem oldest_stores_over_the_ceiling:
  "length (replicate 41943041 (0 :: 8 word)) > 40 * 1024 * 1024 \<and>
   upload_handler_oldest (js ''/srv/app'') (\<lambda>k. 1 / 2) 71
     (Some \<lparr>fieldname = js ''file'', originalname = js ''a.png'',
            mimetype = js ''image/png'', chunks = [replicate 41943041 0]\<rparr>)
     \<lparr>entries = Map.empty, protected = {}\<rparr>
    = (FileUrl 200 True (js ''/uploads/ffffffff1z-a.png''),
       \<lparr>entries = [js ''/srv/app/uploads/ffffffff1z-a.png'' \<mapsto>
                     RegularFile (replicate 41943041 0)],
         protected = {}\<rparr>,
       [Create (js ''/srv/app/uploads/ffffffff1z-a.png''),
        Write (js ''/srv/app/uploads/ffffffff1z-a.png'') 41943041])"
proof -
  let ?file = "\<lparr>fieldname = js ''file'', originalname = js ''a.png'',
            mimetype = js ''image/png'', chunks = [replicate 41943041 (0 :: 8 word)]\<rparr>"
  let ?fs = "\<lparr>entries = Map.empty, protected = {}\<rparr>"
  let ?p = "js ''/srv/app/uploads/ffffffff1z-a.png''"
  have name: "filename_unsanitized (\<lambda>k. 1 / 2) 71 (js ''a.png'') = js ''ffffffff1z-a.png''"
    by (simp add: filename_unsanitized_def identifier_example) (simp add: js_def)
  have path: "path_join [path_join [js ''/srv/app'', js ''uploads''], js ''ffffffff1z-a.png'']
     = ?p"
    by (simp add: path_join_def normalize_def js_def SLASH_def Let_def)
  have h1: "originalname ?file \<noteq> []" by (simp add: js_def)
  have h2: "fieldname ?file = js ''file''" by simp
  have h3: "?p = path_join [path_join [js ''/srv/app'', js ''uploads''],
                        filename_unsanitized (\<lambda>k. 1 / 2) 71 (originalname ?file)]"
    by (simp add: name path)
  have h4: "?p \<notin> protected ?fs" by simp
  have h5: "entries ?fs ?p \<noteq> Some Directory" by simp
  have url: "js ''/uploads/'' @ js ''ffffffff1z-a.png'' = js ''/uploads/ffffffff1z-a.png''"
    by (simp add: js_def)
  show ?thesis
    using oldest_stores[OF h1 h2 h3 h4 h5] url
    by (simp add: name)
qed



section \<open>Properties of the timestamp suffix\<close>

lemma digits36_map: "digits36 = map digit36 [0..<36]"
  by (simp add: digits36_def js_def upt_rec digit36_def)

lemma digits36_nth: "k < 36 \<Longrightarrow> digits36 ! k = digit36 k"
  by (simp add: digits36_map del: upt_Suc)

lemma unat_of_nat_small: "n < 65536 \<Longrightarrow> unat (of_nat n :: code_unit) = n"
  by (simp add: unat_of_nat)

lemma unat_digit36: "k < 36 \<Longrightarrow> unat (digit36 k) = (if k < 10 then 48 + k else 87 + k)"
proof -
  assume k: "k < 36"
  have "unat (of_nat (48 + k) :: code_unit) = 48 + k"
    using k by (intro unat_of_nat_small) simp
  moreover have "unat (of_nat (87 + k) :: code_unit) = 87 + k"
    using k by (intro unat_of_nat_small) simp
  ultimately show ?thesis unfolding digit36_def by presburger
qed

lemma digit_value_digit36: "k < 36 \<Longrightarrow> digit_value (digit36 k) = k"
  by (simp add: digit_value_def word_le_nat_alt unat_digit36)

lemma digit36_less: "j < 36 \<Longrightarrow> k < 36 \<Longrightarrow> (digit36 j < digit36 k) = (j < k)"
  by (simp add: word_less_nat_alt unat_digit36)


lemma toString36_digit36: "set (toString36 n) \<subseteq> digit36 ` {..<36}"
proof (induction n rule: toString36.induct)
  case (1 n)
  show ?case
  proof (cases "n < 36")
    case True
    then show ?thesis by (subst toString36.simps) (simp add: digits36_nth)
  next
    case False
    have "digits36 ! (n mod 36) = digit36 (n mod 36)" by (rule digits36_nth) simp
    then show ?thesis using 1[OF False] False by (subst toString36.simps) simp
  qed
qed

lemma length_toString36_pos: "0 < length (toString36 n)"
  by (subst toString36.simps) simp

lemma value36_snoc: "value36 (s @ [c]) = value36 s * 36 + digit_value c"
  by (simp add: value36_def)

lemma value36_toString36: "value36 (toString36 n) = n"
proof (induction n rule: toString36.induct)
  case (1 n)
  show ?case
  proof (cases "n < 36")
    case True
    then show ?thesis
      by (subst toString36.simps) (simp add: value36_def digits36_nth digit_value_digit36)
  next
    case False
    have "value36 (toString36 n) = value36 (toString36 (n div 36)) * 36
            + digit_value (digits36 ! (n mod 36))"
      using False by (subst toString36.simps) (simp add: value36_snoc)
    also have "\<dots> = (n div 36) * 36 + n mod 36"
      using 1[OF False] by (simp add: digits36_nth digit_value_digit36)
    finally show ?thesis by simp
  qed
qed

lemma foldl_shift:
  "foldl (\<lambda>acc c. acc * 36 + digit_value c) a s
     = a * 36 ^ length s + foldl (\<lambda>acc c. acc * 36 + digit_value c) 0 s"
proof (induction s arbitrary: a)
  case Nil
  then show ?case by simp
next
  case (Cons c s)
  show ?case
    using Cons.IH[of "a * 36 + digit_value c"] Cons.IH[of "digit_value c"]
    by (simp add: algebra_simps)
qed

lemma value36_Cons: "value36 (c # s) = digit_value c * 36 ^ length s + value36 s"
  using foldl_shift[of "digit_value c" s] by (simp add: value36_def)

lemma value36_bound: "set s \<subseteq> digit36 ` {..<36} \<Longrightarrow> value36 s < 36 ^ length s"
proof (induction s)
  case Nil
  then show ?case by (simp add: value36_def)
next
  case (Cons c s)
  then obtain k where k: "k < 36" "c = digit36 k" by auto
  have v: "value36 s < 36 ^ length s" using Cons by simp
  have "digit_value c \<le> 35" using k by (simp add: digit_value_digit36)
  then have "digit_value c * 36 ^ length s \<le> 35 * 36 ^ length s"
    by (rule mult_le_mono1)
  then have "digit_value c * 36 ^ length s + value36 s < 35 * 36 ^ length s + 36 ^ length s"
    using v by linarith
  then show ?case by (simp add: value36_Cons)
qed

lemma toString36_lower: "0 < n \<Longrightarrow> 36 ^ (length (toString36 n) - 1) \<le> n"
proof (induction n rule: toString36.induct)
  case (1 n)
  show ?case
  proof (cases "n < 36")
    case True
    then show ?thesis using "1.prems" by (subst toString36.simps) simp
  next
    case False
    then have pos: "0 < n div 36" by (simp add: div_greater_zero_iff)
    let ?l = "length (toString36 (n div 36))"
    have "36 ^ (?l - 1) \<le> n div 36" using "1.IH"[OF False pos] .
    then have "36 * 36 ^ (?l - 1) \<le> 36 * (n div 36)" by simp
    moreover have "36 * 36 ^ (?l - 1) = (36::nat) ^ ?l"
      using length_toString36_pos[of "n div 36"] by (cases ?l) simp_all
    moreover have "36 * (n div 36) \<le> n" by simp
    ultimately have "(36::nat) ^ ?l \<le> n" by linarith
    then show ?thesis using False by (subst toString36.simps) simp
  qed
qed

lemma length_toString36_mono:
  assumes "t1 \<le> t2"
  shows "length (toString36 t1) \<le> length (toString36 t2)"
proof (cases "t1 = 0")
  case True
  have "length (toString36 0) = 1" by (subst toString36.simps) simp
  moreover have "1 \<le> length (toString36 t2)"
    using length_toString36_pos[of t2] by linarith
  ultimately show ?thesis using True by simp
next
  case False
  then have "36 ^ (length (toString36 t1) - 1) \<le> t1" using toString36_lower by simp
  also have "t1 \<le> t2" by fact
  also have "t2 < 36 ^ length (toString36 t2)"
    using value36_bound[OF toString36_digit36, of t2] by (simp add: value36_toString36)
  finally have "(36::nat) ^ (length (toString36 t1) - 1) < 36 ^ length (toString36 t2)" .
  then have "length (toString36 t1) - 1 < length (toString36 t2)"
    by (simp add: power_strict_increasing_iff)
  then show ?thesis by simp
qed

lemma string_le_of_value:
  "length a = length b \<Longrightarrow> set a \<subseteq> digit36 ` {..<36} \<Longrightarrow> set b \<subseteq> digit36 ` {..<36} \<Longrightarrow>
   value36 a \<le> value36 b \<Longrightarrow> string_le a b"
proof (induction a b rule: list_induct2)
  case Nil
  then show ?case by simp
next
  case (Cons x xs y ys)
  obtain j where j: "j < 36" "x = digit36 j" using Cons.prems(1) by auto
  obtain k where k: "k < 36" "y = digit36 k" using Cons.prems(2) by auto
  let ?P = "(36::nat) ^ length xs"
  have vx: "value36 xs < ?P" using value36_bound[of xs] Cons.prems(1) by simp
  have vy: "value36 ys < ?P" using value36_bound[of ys] Cons.prems(2) Cons.hyps by simp
  have le: "j * ?P + value36 xs \<le> k * ?P + value36 ys"
    using Cons.prems(3) Cons.hyps j k by (simp add: value36_Cons digit_value_digit36)
  have jk: "j \<le> k"
  proof (rule ccontr)
    assume "\<not> j \<le> k"
    then have "k + 1 \<le> j" by simp
    then have "(k + 1) * ?P \<le> j * ?P" by (rule mult_le_mono1)
    then have "k * ?P + ?P \<le> j * ?P" by (simp add: algebra_simps)
    then show False using le vy by linarith
  qed
  show ?case
  proof (cases "j < k")
    case True
    then show ?thesis using j k by (simp add: digit36_less)
  next
    case False
    then have eq: "j = k" using jk by simp
    then have "value36 xs \<le> value36 ys" using le by simp
    then have "string_le xs ys" using Cons.IH Cons.prems(1,2) by simp
    then show ?thesis using eq j k by simp
  qed
qed

lemma toString36_mono:
  assumes "t1 \<le> t2"
  shows "numeral_le (toString36 t1) (toString36 t2)"
proof (cases "length (toString36 t1) < length (toString36 t2)")
  case True
  then show ?thesis by (simp add: numeral_le_def)
next
  case False
  then have len: "length (toString36 t1) = length (toString36 t2)"
    using length_toString36_mono[OF assms] by simp
  have "string_le (toString36 t1) (toString36 t2)"
    using string_le_of_value[OF len toString36_digit36 toString36_digit36] assms
    by (simp add: value36_toString36)
  then show ?thesis using len by (simp add: numeral_le_def)
qed

lemma plain_string_order_example:
  "toString36 35 = js ''z'' \<and> toString36 36 = js ''10'' \<and> \<not> string_le (js ''z'') (js ''10'')"
  by (simp add: toString36.simps digits36_def js_def)


text \<open>
  C9: for two calls with clock readings \<open>t1 \<le> t2\<close>, the suffixes of the two identifiers
  after the random part are the base-36 numerals of \<open>t1\<close> and \<open>t2\<close>; they denote \<open>t1\<close>
  and \<open>t2\<close>, and the first is at most the second in the order of numerals.
\<close>

theorem timestamp_suffix_monotone:
  assumes "t1 \<le> t2" and "0 \<le> len"
    and "\<forall>k. 0 \<le> random1 k \<and> random1 k < 1"
    and "\<forall>k. 0 \<le> random2 k \<and> random2 k < 1"
  shows "drop (nat len) (generateCustomID random1 t1 (Some len)) = toString36 t1 \<and>
         drop (nat len) (generateCustomID random2 t2 (Some len)) = toString36 t2 \<and>
         drop 8 (generateCustomID random1 t1 None) = toString36 t1 \<and>
         drop 8 (generateCustomID random2 t2 None) = toString36 t2 \<and>
         value36 (toString36 t1) = t1 \<and> value36 (toString36 t2) = t2 \<and>
         numeral_le (toString36 t1) (toString36 t2)"
proof -
  have suffix: "drop (nat l) (generateCustomID random t (Some l)) = toString36 t"
    if "\<forall>k. 0 \<le> random k \<and> random k < 1" for random t l
    using random_loop_map[OF that, of l 0 "[]"] by (simp add: generateCustomID_def)
  have dflt: "generateCustomID random t None = generateCustomID random t (Some 8)" for random t
    by (simp add: generateCustomID_def)
  have "drop 8 (generateCustomID random1 t1 None) = toString36 t1"
    using suffix[OF assms(3), of 8 t1] dflt[of random1 t1] by simp
  moreover have "drop 8 (generateCustomID random2 t2 None) = toString36 t2"
    using suffix[OF assms(4), of 8 t2] dflt[of random2 t2] by simp
  ultimately show ?thesis
    using suffix[OF assms(3), of len t1] suffix[OF assms(4), of len t2]
      value36_toString36 toString36_mono[OF assms(1)]
    by simp
qed

theorem timestamp_suffix_monotone_witness:
  "(35::nat) \<le> 36 \<and> (0::int) \<le> 3 \<and> (\<forall>k::nat. (0::real) \<le> 1 / 2 \<and> (1 / 2 :: real) < 1) \<and>
   toString36 35 = js ''z'' \<and> toString36 36 = js ''10'' \<and>
   numeral_le (js ''z'') (js ''10'')"
proof -
  have h1: "(35::nat) \<le> 36" by simp
  have h2: "(0::int) \<le> 3" by simp
  have h3: "\<forall>k::nat. (0::real) \<le> (\<lambda>k. 1 / 2) k \<and> (\<lambda>k. 1 / 2 :: real) k < 1" by simp
  have t: "toString36 35 = js ''z''" "toString36 36 = js ''10''"
    by (simp_all add: toString36.simps digits36_def js_def)
  have "numeral_le (toString36 35) (toString36 36)"
    using timestamp_suffix_monotone[OF h1 h2 h3 h3] by blast
  then show ?thesis using t by simp
qed


section \<open>Stored names under the storage root\<close>

subsection \<open>Splitting, joining and normalising\<close>

lemma js_slash: "js ''/'' = [SLASH]"
  by (simp add: js_def SLASH_def)

lemma split_on_units:
  "sep \<notin> set cur \<Longrightarrow> \<forall>s \<in> set (split_on sep cur xs). sep \<notin> set s"
proof (induction xs arbitrary: cur)
  case Nil
  then show ?case by simp
next
  case (Cons x xs)
  show ?case
  proof (cases "x = sep")
    case True
    have "\<forall>s \<in> set (split_on sep [] xs). sep \<notin> set s" by (rule Cons.IH) simp
    then show ?thesis using True Cons.prems by simp
  next
    case False
    have "\<forall>s \<in> set (split_on sep (cur @ [x]) xs). sep \<notin> set s"
      using False Cons.prems by (intro Cons.IH) simp
    then show ?thesis using False by simp
  qed
qed

lemma split_on_prefix:
  "sep \<notin> set s \<Longrightarrow> split_on sep cur (s @ sep # rest) = (cur @ s) # split_on sep [] rest"
  by (induction s arbitrary: cur) auto

lemma split_on_last:
  "sep \<notin> set n \<Longrightarrow> split_on sep cur (xs @ sep # n) = split_on sep cur xs @ [n]"
proof (induction xs arbitrary: cur)
  case Nil
  then show ?case using split_on_no_sep[of sep n "[]"] by simp
next
  case (Cons x xs)
  then show ?case by simp
qed

lemma split_on_join:
  "segs \<noteq> [] \<Longrightarrow> \<forall>s \<in> set segs. sep \<notin> set s \<Longrightarrow>
   split_on sep [] (join_with [sep] segs) = segs"
proof (induction "[sep]" segs rule: join_with.induct)
  case 1
  then show ?case by simp
next
  case (2 s)
  then show ?case using split_on_no_sep[of sep s "[]"] by simp
next
  case (3 s t ss)
  have "split_on sep [] (s @ sep # join_with [sep] (t # ss)) =
          s # split_on sep [] (join_with [sep] (t # ss))"
    using split_on_prefix[of sep s "[]"] 3(3) by simp
  then show ?case using 3 by simp
qed

lemma join_with_snoc:
  "segs \<noteq> [] \<Longrightarrow> join_with sep (segs @ [n]) = join_with sep segs @ sep @ n"
  by (induction sep segs rule: join_with.induct) auto

lemma join_with_nonempty:
  "segs \<noteq> [] \<Longrightarrow> \<forall>s \<in> set segs. s \<noteq> [] \<Longrightarrow> join_with sep segs \<noteq> []"
  by (induction sep segs rule: join_with.induct) auto

lemma normalizeString_append:
  "normalizeString b res (xs @ ys) = normalizeString b (normalizeString b res xs) ys"
  by (induction xs arbitrary: res) auto

lemma normalizeString_plain:
  "\<forall>s \<in> set segs. plain_segment s \<Longrightarrow> normalizeString b res segs = res @ segs"
  by (induction segs arbitrary: res) (auto simp: plain_segment_def)

lemma normalizeString_absolute_plain:
  "\<forall>s \<in> set res. plain_segment s \<Longrightarrow> \<forall>s \<in> set segs. SLASH \<notin> set s \<Longrightarrow>
   \<forall>s \<in> set (normalizeString False res segs). plain_segment s"
proof (induction segs arbitrary: res)
  case Nil
  then show ?case by simp
next
  case (Cons seg segs)
  have bl: "\<forall>s \<in> set (butlast res). plain_segment s"
    using Cons.prems(1) by (meson in_set_butlastD)
  have push: "\<forall>s \<in> set (res @ [seg]). plain_segment s"
    if "seg \<noteq> []" "seg \<noteq> js ''.''" "seg \<noteq> js ''..''"
    using that Cons.prems by (simp add: plain_segment_def)
  have rest: "\<forall>s \<in> set segs. SLASH \<notin> set s" using Cons.prems(2) by simp
  show ?case
    using Cons.IH[OF Cons.prems(1) rest] Cons.IH[OF bl rest] Cons.IH[OF push rest]
    by simp
qed


subsection \<open>A plain segment joined to the storage root\<close>

lemma uploads_plain: "plain_segment (js ''uploads'')"
  by (simp add: plain_segment_def js_def SLASH_def)

lemma normalize_absolute:
  assumes "path \<noteq> []" and "hd path = SLASH" and "last path \<noteq> SLASH"
    and "normalizeString False [] (split_on SLASH [] path) = segs" and "segs \<noteq> []"
    and "\<forall>s \<in> set segs. plain_segment s"
  shows "normalize path = SLASH # join_with [SLASH] segs"
proof -
  have "join_with [SLASH] segs \<noteq> []"
    using join_with_nonempty[OF assms(5), of "[SLASH]"] assms(6) by (simp add: plain_segment_def)
  then show ?thesis
    using assms(1-4) by (simp add: normalize_def Let_def js_slash)
qed

lemma uploads_dir_form:
  assumes "dirname \<noteq> []" and "hd dirname = SLASH"
  shows "\<exists>segs. segs \<noteq> [] \<and> (\<forall>s \<in> set segs. plain_segment s) \<and>
           UPLOADS_DIR dirname = SLASH # join_with [SLASH] segs"
proof -
  let ?u = "js ''uploads''"
  let ?joined = "dirname @ SLASH # ?u"
  let ?R = "normalizeString False [] (split_on SLASH [] dirname)"
  have u: "?u \<noteq> []" "SLASH \<notin> set ?u" "last ?u \<noteq> SLASH"
    by (simp_all add: js_def SLASH_def)
  have join: "path_join [dirname, ?u] = normalize ?joined"
    using assms(1) u(1) by (simp add: path_join_def js_slash Let_def)
  have split: "split_on SLASH [] ?joined = split_on SLASH [] dirname @ [?u]"
    using split_on_last[OF u(2)] by simp
  have Rplain: "\<forall>s \<in> set ?R. plain_segment s"
    using normalizeString_absolute_plain[of "[]" "split_on SLASH [] dirname"]
      split_on_units[of SLASH "[]" dirname] by simp
  have segs: "normalizeString False [] (split_on SLASH [] ?joined) = ?R @ [?u]"
    using normalizeString_plain[of "[?u]" False ?R] uploads_plain
    by (simp add: split normalizeString_append)
  have "normalize ?joined = SLASH # join_with [SLASH] (?R @ [?u])"
  proof (rule normalize_absolute)
    show "?joined \<noteq> []" by simp
    show "hd ?joined = SLASH" using assms by simp
    show "last ?joined \<noteq> SLASH" using u by simp
    show "normalizeString False [] (split_on SLASH [] ?joined) = ?R @ [?u]" by (rule segs)
    show "?R @ [?u] \<noteq> []" by simp
    show "\<forall>s \<in> set (?R @ [?u]). plain_segment s" using Rplain uploads_plain by simp
  qed
  then have "UPLOADS_DIR dirname = SLASH # join_with [SLASH] (?R @ [?u])"
    using join by (simp add: UPLOADS_DIR_def)
  moreover have "?R @ [?u] \<noteq> []" by simp
  moreover have "\<forall>s \<in> set (?R @ [?u]). plain_segment s" using Rplain uploads_plain by simp
  ultimately show ?thesis by blast
qed

lemma join_plain_child:
  assumes "segs \<noteq> []" and "\<forall>s \<in> set segs. plain_segment s" and "plain_segment n"
  shows "path_join [SLASH # join_with [SLASH] segs, n] = (SLASH # join_with [SLASH] segs) @ SLASH # n"
proof -
  let ?root = "SLASH # join_with [SLASH] segs"
  let ?joined = "?root @ SLASH # n"
  have n: "n \<noteq> []" "SLASH \<notin> set n" using assms(3) by (simp_all add: plain_segment_def)
  then have lastn: "last n \<noteq> SLASH" using last_in_set by metis
  have units: "\<forall>s \<in> set segs. SLASH \<notin> set s" using assms(2) by (simp add: plain_segment_def)
  have join: "path_join [?root, n] = normalize ?joined"
    using n(1) by (simp add: path_join_def js_slash Let_def)
  have "split_on SLASH [] ?root = [] # segs"
    using split_on_join[OF assms(1) units] by simp
  then have split: "split_on SLASH [] ?joined = [] # segs @ [n]"
    using split_on_last[OF n(2), of "[]" ?root] by simp
  have "normalizeString False [] ([] # segs @ [n]) = segs @ [n]"
    using normalizeString_plain[of "segs @ [n]" False "[]"] assms(2,3) by simp
  then have segs': "normalizeString False [] (split_on SLASH [] ?joined) = segs @ [n]"
    by (simp only: split)
  have "normalize ?joined = SLASH # join_with [SLASH] (segs @ [n])"
  proof (rule normalize_absolute)
    show "?joined \<noteq> []" by simp
    show "hd ?joined = SLASH" by simp
    show "last ?joined \<noteq> SLASH" using lastn n(1) by simp
    show "normalizeString False [] (split_on SLASH [] ?joined) = segs @ [n]" by (rule segs')
    show "segs @ [n] \<noteq> []" by simp
    show "\<forall>s \<in> set (segs @ [n]). plain_segment s" using assms(2,3) by simp
  qed
  then show ?thesis using join join_with_snoc[OF assms(1), of "[SLASH]" n] by simp
qed

lemma plain_child_of_uploads_dir:
  assumes "dirname \<noteq> []" and "hd dirname = SLASH" and "plain_segment n"
  shows "path_join [UPLOADS_DIR dirname, n] = UPLOADS_DIR dirname @ js ''/'' @ n"
proof -
  obtain segs where segs: "segs \<noteq> []" "\<forall>s \<in> set segs. plain_segment s"
    "UPLOADS_DIR dirname = SLASH # join_with [SLASH] segs"
    using uploads_dir_form[OF assms(1,2)] by blast
  show ?thesis using join_plain_child[OF segs(1,2) assms(3)] segs(3) by (simp add: js_slash)
qed


text \<open>
  With the server in an absolute directory, a stored name joined to the storage root
  is the root, a \<open>/\<close> and the name: the file an upload writes and the file a delete of
  that name removes are the same direct child of the storage root.
\<close>

lemma filename_plain: "plain_segment (filename random now original)"
proof -
  let ?n = "filename random now original"
  have "DASH \<notin> set (js ''.'')" "DASH \<notin> set (js ''..'')"
    by (simp_all add: js_def DASH_def)
  then have "?n \<noteq> js ''.''" "?n \<noteq> js ''..''" "?n \<noteq> []"
    using dash_in_filename[of random now original] by auto
  moreover have "SLASH \<notin> set ?n"
    using filename_units[of SLASH random now original] by blast
  ultimately show ?thesis by (simp add: plain_segment_def)
qed

corollary stored_name_resolves_inside_root:
  assumes "dirname \<noteq> []" and "hd dirname = SLASH"
  shows "path_join [UPLOADS_DIR dirname, filename random now original] =
           UPLOADS_DIR dirname @ js ''/'' @ filename random now original"
  using plain_child_of_uploads_dir[OF assms filename_plain] .

end
